theory Spec2Isabelle
  imports Main "HOL-Library.Word"
begin

unbundle bit_operations_syntax

section \<open>The value object layer of object.c\<close>

text \<open>
  A shallow embedding of \<^verbatim>\<open>src/object.c\<close>. Objects live in an explicit store: a
  pointer \<^verbatim>\<open>robj *\<close> is an address, the header it points to is a record, and every
  function that dereferences, allocates or frees takes the server state and returns the new
  one. A \<^verbatim>\<open>serverPanic\<close> or a failed \<^verbatim>\<open>serverAssert\<close> ends the process; both are
  results of the error type below. The model is of an LP64 build: \<^verbatim>\<open>long\<close>,
  \<^verbatim>\<open>long long\<close> and \<^verbatim>\<open>size_t\<close> have 64 bits, \<^verbatim>\<open>int\<close> has 32.
\<close>

subsection \<open>Data\<close>

type_synonym addr = nat

text \<open>
  The 4-bit fields \<^verbatim>\<open>type\<close> and \<^verbatim>\<open>encoding\<close> of \<^verbatim>\<open>robj\<close>. The bit patterns that
  no \<^verbatim>\<open>OBJ_*\<close> name stands for are one constructor each, so that the \<^verbatim>\<open>default:\<close>
  branches of the code are branches of the model.
\<close>

datatype obj_type =
  OBJ_STRING | OBJ_LIST | OBJ_SET | OBJ_ZSET | OBJ_HASH | OBJ_MODULE | OBJ_TYPE_OTHER

datatype obj_encoding =
  OBJ_ENCODING_RAW | OBJ_ENCODING_INT | OBJ_ENCODING_HT | OBJ_ENCODING_ZIPMAP
  | OBJ_ENCODING_LINKEDLIST | OBJ_ENCODING_ZIPLIST | OBJ_ENCODING_INTSET
  | OBJ_ENCODING_SKIPLIST | OBJ_ENCODING_EMBSTR | OBJ_ENCODING_QUICKLIST
  | OBJ_ENCODING_OTHER

text \<open>
  Modelled from the spec: the dynamic string library (\<^verbatim>\<open>sds.c\<close>) is not under
  \<^verbatim>\<open>src/\<close>. The spec gives it "create/free, length, unused-capacity, shrink-to-fit": a
  dynamic string is its bytes (binary safe) and the number of unused bytes after them.
\<close>

record sds =
  sds_buf :: string
  sds_avail :: nat

definition sdslen :: "sds \<Rightarrow> nat" where
  "sdslen sd = length (sds_buf sd)"

definition sdsavail :: "sds \<Rightarrow> nat" where
  "sdsavail sd = sds_avail sd"

text \<open>
  What \<^verbatim>\<open>o->ptr\<close> holds. The C field is a \<^verbatim>\<open>void *\<close> whose meaning the encoding
  fixes; the model tags it: a null pointer, a pointer to an independently allocated dynamic
  string, the dynamic string that sits in the header's own allocation (\<^verbatim>\<open>sh+1\<close> in
  \<^verbatim>\<open>createEmbeddedStringObject\<close>), a \<^verbatim>\<open>long\<close> stored in the pointer bits, or a
  pointer to a structure of one of the container libraries.
\<close>

datatype payload =
  PNULL | PSds addr | PEmb sds | PLong "64 word" | PExt addr

record robj =
  otype :: obj_type
  encoding :: obj_encoding
  lru :: "24 word"
  refcount :: int
  ptr :: payload

text \<open>
  Calls into the container libraries and into \<^verbatim>\<open>zfree\<close> on their structures, in the
  order the code makes them, each with the \<^verbatim>\<open>o->ptr\<close> it was given. For a skiplist
  sorted set, \<^verbatim>\<open>ZsetDictRelease p\<close> is \<^verbatim>\<open>dictRelease(zs->dict)\<close> and
  \<^verbatim>\<open>ZslFree p\<close> is \<^verbatim>\<open>zslFree(zs->zsl)\<close> for the \<^verbatim>\<open>zset\<close> at \<^verbatim>\<open>p\<close>;
  \<^verbatim>\<open>ModuleTypeFree p\<close> is \<^verbatim>\<open>mv->type->free(mv->value)\<close> for the
  \<^verbatim>\<open>moduleValue\<close> at \<^verbatim>\<open>p\<close>.
\<close>

datatype ext_call =
  QuicklistRelease payload | DictRelease payload | ZsetDictRelease payload
  | ZslFree payload | ModuleTypeFree payload | ZFree payload

datatype error =
  Panic string       \<comment> \<open>\<^verbatim>\<open>serverPanic(msg)\<close>\<close>
  | AssertFailed     \<comment> \<open>\<^verbatim>\<open>serverAssert\<close>, \<^verbatim>\<open>serverAssertWithInfo\<close>\<close>
  | Fault            \<comment> \<open>a null, dangling or mistyped pointer is dereferenced, or a read
                         runs past its buffer: undefined in C\<close>

text \<open>
  The part of the process state the object layer reads and writes: the live headers, the
  live independently allocated dynamic strings, the allocator's next fresh address, the
  calls made into the container libraries, the two eviction settings of \<^verbatim>\<open>server\<close>,
  the table \<^verbatim>\<open>shared.integers\<close>, and the values the two clocks return.
\<close>

record server =
  objs :: "addr \<rightharpoonup> robj"
  sdss :: "addr \<rightharpoonup> sds"
  next_addr :: addr
  ext_calls :: "ext_call list"
  maxmemory :: "64 word"
  maxmemory_policy :: "32 word"
  shared_integers :: "nat \<Rightarrow> addr"
  lru_clock :: "32 word"
  lfu_minutes :: "64 word"

subsection \<open>Constants of server.h\<close>

text \<open>
  Modelled from the spec: \<^verbatim>\<open>server.h\<close> is not under \<^verbatim>\<open>src/\<close>. The spec fixes
  \<^verbatim>\<open>SHARED = INT_MAX\<close>, \<^verbatim>\<open>SHARED_INT_LIMIT = 10000\<close> and \<^verbatim>\<open>LFU_INIT = 5\<close>, and
  speaks of an eviction-policy flag for LFU mode and of a policy that disables shared
  integers: here the policy word has bit 0 for LRU and bit 1 for LFU, and the mask that
  disables shared integers is the two together. The return codes are 0 and -1.
\<close>

definition OBJ_SHARED_REFCOUNT :: int where
  "OBJ_SHARED_REFCOUNT = 2147483647"

definition OBJ_SHARED_INTEGERS :: int where
  "OBJ_SHARED_INTEGERS = 10000"

definition LFU_INIT_VAL :: "64 word" where
  "LFU_INIT_VAL = 5"

definition MAXMEMORY_FLAG_LRU :: "32 word" where
  "MAXMEMORY_FLAG_LRU = 1"

definition MAXMEMORY_FLAG_LFU :: "32 word" where
  "MAXMEMORY_FLAG_LFU = 2"

definition MAXMEMORY_FLAG_NO_SHARED_INTEGERS :: "32 word" where
  "MAXMEMORY_FLAG_NO_SHARED_INTEGERS = (MAXMEMORY_FLAG_LRU OR MAXMEMORY_FLAG_LFU)"

definition sdsEncodedObject :: "robj \<Rightarrow> bool" where
  "sdsEncodedObject ob \<longleftrightarrow>
     encoding ob = OBJ_ENCODING_RAW \<or> encoding ob = OBJ_ENCODING_EMBSTR"

subsection \<open>Allocation\<close>

text \<open>
  \<^verbatim>\<open>zmalloc\<close> hands out the next fresh address. \<^verbatim>\<open>zfree(o)\<close> on a header removes it
  from the store.
\<close>

definition zmalloc :: "server \<Rightarrow> addr \<times> server" where
  "zmalloc s = (next_addr s, s\<lparr>next_addr := Suc (next_addr s)\<rparr>)"

definition zfree_obj :: "server \<Rightarrow> addr \<Rightarrow> server" where
  "zfree_obj s p = s\<lparr>objs := (objs s)(p := None)\<rparr>"

definition ext_call :: "ext_call \<Rightarrow> server \<Rightarrow> server" where
  "ext_call c s = s\<lparr>ext_calls := ext_calls s @ [c]\<rparr>"

text \<open>
  Modelled from the spec: \<^verbatim>\<open>sdsnewlen\<close>, \<^verbatim>\<open>sdsfree\<close> and
  \<^verbatim>\<open>sdsRemoveFreeSpace\<close> of \<^verbatim>\<open>sds.c\<close>. The bytes of a new string are the first
  \<^verbatim>\<open>len\<close> bytes of the buffer, or zeros when the buffer is null (the spec's "input may
  be null, in which case bytes are zero-filled"); a buffer shorter than \<^verbatim>\<open>len\<close> would be
  read past its end. Freeing removes the string from the store; shrinking leaves no unused
  capacity and keeps the bytes.
\<close>

definition copy_bytes :: "string option \<Rightarrow> nat \<Rightarrow> error + string" where
  "copy_bytes p len =
     (case p of
        None \<Rightarrow> Inr (replicate len (CHR 0x00))
      | Some bs \<Rightarrow> if len \<le> length bs then Inr (take len bs) else Inl Fault)"

definition sdsnewlen :: "server \<Rightarrow> string option \<Rightarrow> nat \<Rightarrow> error + (addr \<times> server)" where
  "sdsnewlen s p len =
     (case copy_bytes p len of
        Inl e \<Rightarrow> Inl e
      | Inr bs \<Rightarrow>
          (case zmalloc s of (a, s1) \<Rightarrow>
             Inr (a, s1\<lparr>sdss := (sdss s1)(a \<mapsto> \<lparr>sds_buf = bs, sds_avail = 0\<rparr>)\<rparr>)))"

definition sdsfree :: "server \<Rightarrow> payload \<Rightarrow> error + server" where
  "sdsfree s p =
     (case p of
        PNULL \<Rightarrow> Inr s
      | PSds a \<Rightarrow> (case sdss s a of
                     None \<Rightarrow> Inl Fault
                   | Some _ \<Rightarrow> Inr (s\<lparr>sdss := (sdss s)(a := None)\<rparr>))
      | _ \<Rightarrow> Inl Fault)"

definition sdsRemoveFreeSpace :: "sds \<Rightarrow> sds" where
  "sdsRemoveFreeSpace sd = sd\<lparr>sds_avail := 0\<rparr>"

subsection \<open>Creation of objects\<close>

text \<open>
  The initial value of the 24-bit \<^verbatim>\<open>lru\<close> field, as \<^verbatim>\<open>createObject\<close> and
  \<^verbatim>\<open>createEmbeddedStringObject\<close> both compute it; the assignment to the bit field
  truncates.
\<close>

definition initial_lru :: "server \<Rightarrow> 24 word" where
  "initial_lru s =
     (if maxmemory_policy s AND MAXMEMORY_FLAG_LFU \<noteq> 0
      then ucast (push_bit 8 (lfu_minutes s) OR LFU_INIT_VAL)
      else ucast (lru_clock s))"

definition createObject :: "server \<Rightarrow> obj_type \<Rightarrow> payload \<Rightarrow> addr \<times> server" where
  "createObject s t p =
     (case zmalloc s of (a, s1) \<Rightarrow>
        (a, s1\<lparr>objs := (objs s1)(a \<mapsto>
              \<lparr>otype = t, encoding = OBJ_ENCODING_RAW, lru = initial_lru s,
               refcount = 1, ptr = p\<rparr>)\<rparr>))"

definition makeObjectShared :: "server \<Rightarrow> addr \<Rightarrow> error + (addr \<times> server)" where
  "makeObjectShared s a =
     (case objs s a of
        None \<Rightarrow> Inl Fault
      | Some ob \<Rightarrow>
          if refcount ob \<noteq> 1 then Inl AssertFailed
          else Inr (a, s\<lparr>objs := (objs s)(a \<mapsto> ob\<lparr>refcount := OBJ_SHARED_REFCOUNT\<rparr>)\<rparr>))"

definition createRawStringObject ::
  "server \<Rightarrow> string option \<Rightarrow> nat \<Rightarrow> error + (addr \<times> server)" where
  "createRawStringObject s p len =
     (case sdsnewlen s p len of
        Inl e \<Rightarrow> Inl e
      | Inr (a, s1) \<Rightarrow> Inr (createObject s1 OBJ_STRING (PSds a)))"

definition createEmbeddedStringObject ::
  "server \<Rightarrow> string option \<Rightarrow> nat \<Rightarrow> error + (addr \<times> server)" where
  "createEmbeddedStringObject s p len =
     (case zmalloc s of (a, s1) \<Rightarrow>
        (case copy_bytes p len of
           Inl e \<Rightarrow> Inl e
         | Inr bs \<Rightarrow>
             Inr (a, s1\<lparr>objs := (objs s1)(a \<mapsto>
                   \<lparr>otype = OBJ_STRING, encoding = OBJ_ENCODING_EMBSTR,
                    lru = initial_lru s, refcount = 1,
                    ptr = PEmb \<lparr>sds_buf = bs, sds_avail = 0\<rparr>\<rparr>)\<rparr>)))"

definition OBJ_ENCODING_EMBSTR_SIZE_LIMIT :: nat where
  "OBJ_ENCODING_EMBSTR_SIZE_LIMIT = 44"

definition createStringObject ::
  "server \<Rightarrow> string option \<Rightarrow> nat \<Rightarrow> error + (addr \<times> server)" where
  "createStringObject s p len =
     (if len \<le> OBJ_ENCODING_EMBSTR_SIZE_LIMIT
      then createEmbeddedStringObject s p len
      else createRawStringObject s p len)"

subsection \<open>Freeing and reference counts\<close>

definition freeStringObject :: "server \<Rightarrow> robj \<Rightarrow> error + server" where
  "freeStringObject s ob =
     (if encoding ob = OBJ_ENCODING_RAW then sdsfree s (ptr ob) else Inr s)"

definition freeListObject :: "server \<Rightarrow> robj \<Rightarrow> error + server" where
  "freeListObject s ob =
     (if encoding ob = OBJ_ENCODING_QUICKLIST
      then Inr (ext_call (QuicklistRelease (ptr ob)) s)
      else Inl (Panic ''Unknown list encoding type''))"

definition freeSetObject :: "server \<Rightarrow> robj \<Rightarrow> error + server" where
  "freeSetObject s ob =
     (case encoding ob of
        OBJ_ENCODING_HT \<Rightarrow> Inr (ext_call (DictRelease (ptr ob)) s)
      | OBJ_ENCODING_INTSET \<Rightarrow> Inr (ext_call (ZFree (ptr ob)) s)
      | _ \<Rightarrow> Inl (Panic ''Unknown set encoding type''))"

definition freeZsetObject :: "server \<Rightarrow> robj \<Rightarrow> error + server" where
  "freeZsetObject s ob =
     (case encoding ob of
        OBJ_ENCODING_SKIPLIST \<Rightarrow>
          Inr (ext_call (ZFree (ptr ob))
                (ext_call (ZslFree (ptr ob))
                  (ext_call (ZsetDictRelease (ptr ob)) s)))
      | OBJ_ENCODING_ZIPLIST \<Rightarrow> Inr (ext_call (ZFree (ptr ob)) s)
      | _ \<Rightarrow> Inl (Panic ''Unknown sorted set encoding''))"

definition freeHashObject :: "server \<Rightarrow> robj \<Rightarrow> error + server" where
  "freeHashObject s ob =
     (case encoding ob of
        OBJ_ENCODING_HT \<Rightarrow> Inr (ext_call (DictRelease (ptr ob)) s)
      | OBJ_ENCODING_ZIPLIST \<Rightarrow> Inr (ext_call (ZFree (ptr ob)) s)
      | _ \<Rightarrow> Inl (Panic ''Unknown hash encoding type''))"

definition freeModuleObject :: "server \<Rightarrow> robj \<Rightarrow> error + server" where
  "freeModuleObject s ob =
     Inr (ext_call (ZFree (ptr ob)) (ext_call (ModuleTypeFree (ptr ob)) s))"

definition incrRefCount :: "server \<Rightarrow> addr \<Rightarrow> error + server" where
  "incrRefCount s a =
     (case objs s a of
        None \<Rightarrow> Inl Fault
      | Some ob \<Rightarrow>
          if refcount ob \<noteq> OBJ_SHARED_REFCOUNT
          then Inr (s\<lparr>objs := (objs s)(a \<mapsto> ob\<lparr>refcount := refcount ob + 1\<rparr>)\<rparr>)
          else Inr s)"

text \<open>The \<^verbatim>\<open>switch(o->type)\<close> of \<^verbatim>\<open>decrRefCount\<close>.\<close>

definition free_by_type :: "server \<Rightarrow> robj \<Rightarrow> error + server" where
  "free_by_type s ob =
     (case otype ob of
        OBJ_STRING \<Rightarrow> freeStringObject s ob
      | OBJ_LIST \<Rightarrow> freeListObject s ob
      | OBJ_SET \<Rightarrow> freeSetObject s ob
      | OBJ_ZSET \<Rightarrow> freeZsetObject s ob
      | OBJ_HASH \<Rightarrow> freeHashObject s ob
      | OBJ_MODULE \<Rightarrow> freeModuleObject s ob
      | OBJ_TYPE_OTHER \<Rightarrow> Inl (Panic ''Unknown object type''))"

definition decrRefCount :: "server \<Rightarrow> addr \<Rightarrow> error + server" where
  "decrRefCount s a =
     (case objs s a of
        None \<Rightarrow> Inl Fault
      | Some ob \<Rightarrow>
          if refcount ob = 1 then
            (case free_by_type s ob of
               Inl e \<Rightarrow> Inl e
             | Inr s1 \<Rightarrow> Inr (zfree_obj s1 a))
          else if refcount ob \<le> 0 then
            Inl (Panic ''decrRefCount against refcount <= 0'')
          else if refcount ob \<noteq> OBJ_SHARED_REFCOUNT
          then Inr (s\<lparr>objs := (objs s)(a \<mapsto> ob\<lparr>refcount := refcount ob - 1\<rparr>)\<rparr>)
          else Inr s)"

definition resetRefCount :: "server \<Rightarrow> addr \<Rightarrow> error + (addr \<times> server)" where
  "resetRefCount s a =
     (case objs s a of
        None \<Rightarrow> Inl Fault
      | Some ob \<Rightarrow> Inr (a, s\<lparr>objs := (objs s)(a \<mapsto> ob\<lparr>refcount := 0\<rparr>)\<rparr>))"

subsection \<open>Integers as text\<close>

text \<open>
  Modelled from the spec: \<^verbatim>\<open>ll2string\<close>, \<^verbatim>\<open>string2ll\<close> and \<^verbatim>\<open>string2l\<close> of
  \<^verbatim>\<open>util.c\<close> are not under \<^verbatim>\<open>src/\<close>. \<^verbatim>\<open>ll2string\<close> writes the "decimal form" of
  a signed word; its return value is the length of the text. \<^verbatim>\<open>string2ll\<close> parses "the
  whole string as a signed-word integer" and fails on an empty string, on leading
  whitespace, on trailing garbage and on overflow: the text is \<^verbatim>\<open>0\<close>, or an optional
  minus sign followed by digits of which the first is not \<^verbatim>\<open>0\<close>. \<^verbatim>\<open>string2l\<close> adds the
  range check of \<^verbatim>\<open>long\<close>.
\<close>

fun decimal :: "nat \<Rightarrow> string" where
  "decimal n =
     (if n < 10 then [char_of (48 + n)]
      else decimal (n div 10) @ [char_of (48 + n mod 10)])"

declare decimal.simps [simp del]

definition ll2string :: "64 word \<Rightarrow> string" where
  "ll2string v =
     (if sint v < 0 then CHR ''-'' # decimal (nat (- sint v)) else decimal (nat (sint v)))"

definition is_digit :: "char \<Rightarrow> bool" where
  "is_digit c \<longleftrightarrow> (48::nat) \<le> of_char c \<and> of_char c \<le> (57::nat)"

definition digit_val :: "char \<Rightarrow> nat" where
  "digit_val c = of_char c - 48"

definition digits_val :: "string \<Rightarrow> nat" where
  "digits_val cs = foldl (\<lambda>a c. 10 * a + digit_val c) 0 cs"

definition is_number :: "string \<Rightarrow> bool" where
  "is_number cs \<longleftrightarrow>
     (case cs of [] \<Rightarrow> False
      | d # ds \<Rightarrow> is_digit d \<and> d \<noteq> CHR ''0'' \<and> list_all is_digit ds)"

definition string2ll :: "string \<Rightarrow> 64 word option" where
  "string2ll bs =
     (if bs = ''0'' then Some 0
      else case bs of
        [] \<Rightarrow> None
      | c # cs \<Rightarrow>
          if c = CHR ''-''
          then (if is_number cs \<and> digits_val cs \<le> 2 ^ 63
                then Some (- word_of_nat (digits_val cs)) else None)
          else (if is_number bs \<and> digits_val bs < 2 ^ 63
                then Some (word_of_nat (digits_val bs)) else None))"

definition LONG_MIN :: int where
  "LONG_MIN = - (2 ^ 63)"

definition LONG_MAX :: int where
  "LONG_MAX = 2 ^ 63 - 1"

definition LLONG_MAX :: "64 word" where
  "LLONG_MAX = 0x7FFFFFFFFFFFFFFF"

definition string2l :: "string \<Rightarrow> 64 word option" where
  "string2l bs =
     (case string2ll bs of
        None \<Rightarrow> None
      | Some v \<Rightarrow> if sint v < LONG_MIN \<or> sint v > LONG_MAX then None else Some v)"

subsection \<open>Reading the payload\<close>

text \<open>
  The dynamic string \<^verbatim>\<open>o->ptr\<close> points to, and \<^verbatim>\<open>(long) o->ptr\<close>. The number a real
  pointer casts to is not modelled.
\<close>

definition sds_of :: "server \<Rightarrow> robj \<Rightarrow> sds option" where
  "sds_of s ob =
     (case ptr ob of PSds a \<Rightarrow> sdss s a | PEmb sd \<Rightarrow> Some sd | _ \<Rightarrow> None)"

definition ptr_long :: "payload \<Rightarrow> 64 word option" where
  "ptr_long p = (case p of PLong v \<Rightarrow> Some v | PNULL \<Rightarrow> Some 0 | _ \<Rightarrow> None)"

definition set_obj :: "server \<Rightarrow> addr \<Rightarrow> robj \<Rightarrow> server" where
  "set_obj s a ob = s\<lparr>objs := (objs s)(a \<mapsto> ob)\<rparr>"

subsection \<open>Integer strings and re-encoding\<close>

definition createStringObjectFromLongLong ::
  "server \<Rightarrow> 64 word \<Rightarrow> error + (addr \<times> server)" where
  "createStringObjectFromLongLong s v =
     (if sint v \<ge> 0 \<and> sint v < OBJ_SHARED_INTEGERS then
        (case incrRefCount s (shared_integers s (nat (sint v))) of
           Inl e \<Rightarrow> Inl e
         | Inr s1 \<Rightarrow> Inr (shared_integers s1 (nat (sint v)), s1))
      else if sint v \<ge> LONG_MIN \<and> sint v \<le> LONG_MAX then
        (case createObject s OBJ_STRING PNULL of (a, s1) \<Rightarrow>
           (case objs s1 a of
              None \<Rightarrow> Inl Fault
            | Some ob \<Rightarrow>
                Inr (a, set_obj s1 a (ob\<lparr>encoding := OBJ_ENCODING_INT, ptr := PLong v\<rparr>))))
      else
        (case sdsnewlen s (Some (ll2string v)) (length (ll2string v)) of
           Inl e \<Rightarrow> Inl e
         | Inr (a, s1) \<Rightarrow> Inr (createObject s1 OBJ_STRING (PSds a))))"

text \<open>
  \<^verbatim>\<open>createZiplistObject\<close>: a list in the compact encoding. The pointer that
  \<^verbatim>\<open>ziplistNew()\<close> of the container library returns is the argument.
\<close>

definition createZiplistObject :: "server \<Rightarrow> payload \<Rightarrow> error + (addr \<times> server)" where
  "createZiplistObject s zl =
     (case createObject s OBJ_LIST zl of (a, s1) \<Rightarrow>
        (case objs s1 a of
           None \<Rightarrow> Inl Fault
         | Some ob \<Rightarrow> Inr (a, set_obj s1 a (ob\<lparr>encoding := OBJ_ENCODING_ZIPLIST\<rparr>))))"

text \<open>
  The test of \<^verbatim>\<open>tryObjectEncoding\<close> that allows a shared integer:
  \<^verbatim>\<open>server.maxmemory == 0 || !(server.maxmemory_policy & MAXMEMORY_FLAG_NO_SHARED_INTEGERS)\<close>.
\<close>

definition shared_integers_allowed :: "server \<Rightarrow> bool" where
  "shared_integers_allowed s \<longleftrightarrow>
     maxmemory s = 0 \<or> maxmemory_policy s AND MAXMEMORY_FLAG_NO_SHARED_INTEGERS = 0"

text \<open>
  \<^verbatim>\<open>o->ptr = sdsRemoveFreeSpace(o->ptr)\<close>: the reallocation keeps the address here.
\<close>

definition shrink_payload :: "server \<Rightarrow> payload \<Rightarrow> error + server" where
  "shrink_payload s p =
     (case p of
        PSds a \<Rightarrow> (case sdss s a of
                     None \<Rightarrow> Inl Fault
                   | Some sd \<Rightarrow> Inr (s\<lparr>sdss := (sdss s)(a \<mapsto> sdsRemoveFreeSpace sd)\<rparr>))
      | _ \<Rightarrow> Inl Fault)"

definition tryObjectEncoding :: "server \<Rightarrow> addr \<Rightarrow> error + (addr \<times> server)" where
  "tryObjectEncoding s a =
     (case objs s a of
        None \<Rightarrow> Inl Fault
      | Some ob \<Rightarrow>
          if otype ob \<noteq> OBJ_STRING then Inl AssertFailed
          else if \<not> sdsEncodedObject ob then Inr (a, s)
          else if refcount ob > 1 then Inr (a, s)
          else
            (case sds_of s ob of
               None \<Rightarrow> Inl Fault
             | Some sd \<Rightarrow>
                 (case (if sdslen sd \<le> 20 then string2l (sds_buf sd) else None) of
                    Some v \<Rightarrow>
                      if shared_integers_allowed s \<and> sint v \<ge> 0
                         \<and> sint v < OBJ_SHARED_INTEGERS
                      then
                        (case decrRefCount s a of
                           Inl e \<Rightarrow> Inl e
                         | Inr s1 \<Rightarrow>
                             (case incrRefCount s1 (shared_integers s1 (nat (sint v))) of
                                Inl e \<Rightarrow> Inl e
                              | Inr s2 \<Rightarrow> Inr (shared_integers s2 (nat (sint v)), s2)))
                      else
                        (case (if encoding ob = OBJ_ENCODING_RAW
                               then sdsfree s (ptr ob) else Inr s) of
                           Inl e \<Rightarrow> Inl e
                         | Inr s1 \<Rightarrow>
                             Inr (a, set_obj s1 a
                                    (ob\<lparr>encoding := OBJ_ENCODING_INT, ptr := PLong v\<rparr>)))
                  | None \<Rightarrow>
                      if sdslen sd \<le> OBJ_ENCODING_EMBSTR_SIZE_LIMIT then
                        (if encoding ob = OBJ_ENCODING_EMBSTR then Inr (a, s)
                         else
                           (case createEmbeddedStringObject s (Some (sds_buf sd)) (sdslen sd) of
                              Inl e \<Rightarrow> Inl e
                            | Inr (emb, s1) \<Rightarrow>
                                (case decrRefCount s1 a of
                                   Inl e \<Rightarrow> Inl e
                                 | Inr s2 \<Rightarrow> Inr (emb, s2))))
                      else if encoding ob = OBJ_ENCODING_RAW
                              \<and> sdsavail sd > sdslen sd div 10
                      then
                        (case shrink_payload s (ptr ob) of
                           Inl e \<Rightarrow> Inl e
                         | Inr s1 \<Rightarrow> Inr (a, s1))
                      else Inr (a, s))))"

subsection \<open>Comparison\<close>

text \<open>
  \<^verbatim>\<open>memcmp\<close> of the C library over the first \<^verbatim>\<open>n\<close> bytes: zero when they agree,
  otherwise the difference of the first two bytes that differ, read as
  \<^verbatim>\<open>unsigned char\<close> (the C standard fixes the sign only). The code calls it with
  \<^verbatim>\<open>n\<close> no larger than either length.
\<close>

fun memcmp :: "string \<Rightarrow> string \<Rightarrow> nat \<Rightarrow> int" where
  "memcmp xs ys 0 = 0"
| "memcmp (x # xs) (y # ys) (Suc n) =
     (if x = y then memcmp xs ys n else int (of_char x) - int (of_char y))"
| "memcmp xs ys (Suc n) = 0"

text \<open>A C string ends at its first zero byte.\<close>

definition c_str :: "string \<Rightarrow> string" where
  "c_str bs = takeWhile (\<lambda>c. c \<noteq> CHR 0x00) bs"

text \<open>
  \<^verbatim>\<open>return alen-blen;\<close> subtracts two \<^verbatim>\<open>size_t\<close> and converts the difference to
  \<^verbatim>\<open>int\<close>.
\<close>

definition size_diff :: "nat \<Rightarrow> nat \<Rightarrow> int" where
  "size_diff alen blen =
     sint (ucast ((word_of_nat alen :: 64 word) - word_of_nat blen) :: 32 word)"

definition REDIS_COMPARE_BINARY :: "32 word" where
  "REDIS_COMPARE_BINARY = push_bit 0 1"

definition REDIS_COMPARE_COLL :: "32 word" where
  "REDIS_COMPARE_COLL = push_bit 1 1"

text \<open>
  The bytes \<^verbatim>\<open>compareStringObjectsWithFlags\<close> compares for one operand: the dynamic
  string in place, or the decimal text of \<^verbatim>\<open>(long) o->ptr\<close> written to a stack buffer.
\<close>

definition compare_bytes :: "server \<Rightarrow> robj \<Rightarrow> error + string" where
  "compare_bytes s ob =
     (if sdsEncodedObject ob
      then (case sds_of s ob of None \<Rightarrow> Inl Fault | Some sd \<Rightarrow> Inr (sds_buf sd))
      else (case ptr_long (ptr ob) of None \<Rightarrow> Inl Fault | Some v \<Rightarrow> Inr (ll2string v)))"

text \<open>
  \<^verbatim>\<open>strcoll\<close> depends on the host locale and is a parameter.
\<close>

definition compareStringObjectsWithFlags ::
  "(string \<Rightarrow> string \<Rightarrow> int) \<Rightarrow> server \<Rightarrow> addr \<Rightarrow> addr \<Rightarrow> 32 word \<Rightarrow> error + int" where
  "compareStringObjectsWithFlags strcoll s a b flags =
     (case objs s a of
        None \<Rightarrow> Inl Fault
      | Some oa \<Rightarrow>
          (case objs s b of
             None \<Rightarrow> Inl Fault
           | Some ob \<Rightarrow>
               if \<not> (otype oa = OBJ_STRING \<and> otype ob = OBJ_STRING) then Inl AssertFailed
               else if a = b then Inr 0
               else
                 (case compare_bytes s oa of
                    Inl e \<Rightarrow> Inl e
                  | Inr astr \<Rightarrow>
                      (case compare_bytes s ob of
                         Inl e \<Rightarrow> Inl e
                       | Inr bstr \<Rightarrow>
                           if flags AND REDIS_COMPARE_COLL \<noteq> 0
                           then Inr (strcoll (c_str astr) (c_str bstr))
                           else
                             (let alen = length astr; blen = length bstr;
                                  minlen = (if alen < blen then alen else blen);
                                  cmp = memcmp astr bstr minlen
                              in if cmp = 0 then Inr (size_diff alen blen) else Inr cmp)))))"

definition compareStringObjects ::
  "(string \<Rightarrow> string \<Rightarrow> int) \<Rightarrow> server \<Rightarrow> addr \<Rightarrow> addr \<Rightarrow> error + int" where
  "compareStringObjects strcoll s a b =
     compareStringObjectsWithFlags strcoll s a b REDIS_COMPARE_BINARY"

definition collateStringObjects ::
  "(string \<Rightarrow> string \<Rightarrow> int) \<Rightarrow> server \<Rightarrow> addr \<Rightarrow> addr \<Rightarrow> error + int" where
  "collateStringObjects strcoll s a b =
     compareStringObjectsWithFlags strcoll s a b REDIS_COMPARE_COLL"

definition equalStringObjects ::
  "(string \<Rightarrow> string \<Rightarrow> int) \<Rightarrow> server \<Rightarrow> addr \<Rightarrow> addr \<Rightarrow> error + int" where
  "equalStringObjects strcoll s a b =
     (case objs s a of
        None \<Rightarrow> Inl Fault
      | Some oa \<Rightarrow>
          (case objs s b of
             None \<Rightarrow> Inl Fault
           | Some ob \<Rightarrow>
               if encoding oa = OBJ_ENCODING_INT \<and> encoding ob = OBJ_ENCODING_INT
               then Inr (if ptr oa = ptr ob then 1 else 0)
               else
                 (case compareStringObjects strcoll s a b of
                    Inl e \<Rightarrow> Inl e
                  | Inr c \<Rightarrow> Inr (if c = 0 then 1 else 0))))"

subsection \<open>Numeric coercions\<close>

definition C_OK :: int where
  "C_OK = 0"

definition C_ERR :: int where
  "C_ERR = - 1"

text \<open>
  \<^verbatim>\<open>isspace\<close> in the C locale, and the byte at index 0 of a zero-terminated buffer.
\<close>

definition isspace :: "char \<Rightarrow> bool" where
  "isspace c \<longleftrightarrow> (of_char c :: nat) = 32 \<or> (9 \<le> (of_char c :: nat) \<and> (of_char c :: nat) \<le> 13)"

definition first_byte :: "string \<Rightarrow> char" where
  "first_byte bs = (case bs of [] \<Rightarrow> CHR 0x00 | c # _ \<Rightarrow> c)"

text \<open>
  The floating-point side of the C library is a parameter: a type \<open>'f\<close> of values with
  \<^verbatim>\<open>HUGE_VAL\<close>, negation, the comparison \<^verbatim>\<open>==\<close>, \<^verbatim>\<open>isnan\<close> and the conversion from
  \<^verbatim>\<open>long\<close>; and \<^verbatim>\<open>strtod\<close> (or \<^verbatim>\<open>strtold\<close>), which for a C string gives the value
  parsed, the number of bytes consumed (\<^verbatim>\<open>eptr\<close> minus the start), and whether it set
  \<^verbatim>\<open>errno\<close> to \<^verbatim>\<open>ERANGE\<close>.
\<close>

record 'f float_ops =
  HUGE_VAL :: 'f
  fneg :: "'f \<Rightarrow> 'f"
  feq :: "'f \<Rightarrow> 'f \<Rightarrow> bool"
  isnan :: "'f \<Rightarrow> bool"
  of_long :: "64 word \<Rightarrow> 'f"

record 'f strtod_result =
  sr_value :: 'f
  sr_consumed :: nat
  sr_erange :: bool

text \<open>
  The last argument is the content of \<^verbatim>\<open>*target\<close> before the call; the result is the
  return code and the content after it.
\<close>

definition getDoubleFromObject ::
  "'f float_ops \<Rightarrow> (string \<Rightarrow> 'f strtod_result) \<Rightarrow> server \<Rightarrow> addr option \<Rightarrow> 'f
     \<Rightarrow> error + (int \<times> 'f)" where
  "getDoubleFromObject fp strtod s o_ptr target =
     (case o_ptr of
        None \<Rightarrow> Inr (C_OK, of_long fp 0)
      | Some a \<Rightarrow>
          (case objs s a of
             None \<Rightarrow> Inl Fault
           | Some ob \<Rightarrow>
               if otype ob \<noteq> OBJ_STRING then Inl AssertFailed
               else if sdsEncodedObject ob then
                 (case sds_of s ob of
                    None \<Rightarrow> Inl Fault
                  | Some sd \<Rightarrow>
                      (let r = strtod (c_str (sds_buf sd)); v = sr_value r
                       in if sdslen sd = 0
                             \<or> isspace (first_byte (sds_buf sd))
                             \<or> sr_consumed r \<noteq> sdslen sd
                             \<or> (sr_erange r
                                 \<and> (feq fp v (HUGE_VAL fp) \<or> feq fp v (fneg fp (HUGE_VAL fp))
                                     \<or> feq fp v (of_long fp 0)))
                             \<or> isnan fp v
                          then Inr (C_ERR, target)
                          else Inr (C_OK, v)))
               else if encoding ob = OBJ_ENCODING_INT then
                 (case ptr_long (ptr ob) of
                    None \<Rightarrow> Inl Fault
                  | Some v \<Rightarrow> Inr (C_OK, of_long fp v))
               else Inl (Panic ''Unknown string encoding'')))"

definition getLongDoubleFromObject ::
  "'f float_ops \<Rightarrow> (string \<Rightarrow> 'f strtod_result) \<Rightarrow> server \<Rightarrow> addr option \<Rightarrow> 'f
     \<Rightarrow> error + (int \<times> 'f)" where
  "getLongDoubleFromObject fp strtold s o_ptr target =
     (case o_ptr of
        None \<Rightarrow> Inr (C_OK, of_long fp 0)
      | Some a \<Rightarrow>
          (case objs s a of
             None \<Rightarrow> Inl Fault
           | Some ob \<Rightarrow>
               if otype ob \<noteq> OBJ_STRING then Inl AssertFailed
               else if sdsEncodedObject ob then
                 (case sds_of s ob of
                    None \<Rightarrow> Inl Fault
                  | Some sd \<Rightarrow>
                      (let r = strtold (c_str (sds_buf sd)); v = sr_value r
                       in if sdslen sd = 0
                             \<or> isspace (first_byte (sds_buf sd))
                             \<or> sr_consumed r \<noteq> sdslen sd
                             \<or> (sr_erange r
                                 \<and> (feq fp v (HUGE_VAL fp) \<or> feq fp v (fneg fp (HUGE_VAL fp))
                                     \<or> feq fp v (of_long fp 0)))
                             \<or> isnan fp v
                          then Inr (C_ERR, target)
                          else Inr (C_OK, v)))
               else if encoding ob = OBJ_ENCODING_INT then
                 (case ptr_long (ptr ob) of
                    None \<Rightarrow> Inl Fault
                  | Some v \<Rightarrow> Inr (C_OK, of_long fp v))
               else Inl (Panic ''Unknown string encoding'')))"

text \<open>
  \<^verbatim>\<open>target\<close> may be a null pointer here (\<^verbatim>\<open>if (target) *target = value\<close>):
  \<open>None\<close> is the null pointer, \<open>Some x\<close> a cell holding \<open>x\<close>.
\<close>

definition store_target :: "64 word option \<Rightarrow> 64 word \<Rightarrow> 64 word option" where
  "store_target target v = (case target of None \<Rightarrow> None | Some _ \<Rightarrow> Some v)"

definition getLongLongFromObject ::
  "server \<Rightarrow> addr option \<Rightarrow> 64 word option \<Rightarrow> error + (int \<times> 64 word option)" where
  "getLongLongFromObject s o_ptr target =
     (case o_ptr of
        None \<Rightarrow> Inr (C_OK, store_target target 0)
      | Some a \<Rightarrow>
          (case objs s a of
             None \<Rightarrow> Inl Fault
           | Some ob \<Rightarrow>
               if otype ob \<noteq> OBJ_STRING then Inl AssertFailed
               else if sdsEncodedObject ob then
                 (case sds_of s ob of
                    None \<Rightarrow> Inl Fault
                  | Some sd \<Rightarrow>
                      (case string2ll (sds_buf sd) of
                         None \<Rightarrow> Inr (C_ERR, target)
                       | Some v \<Rightarrow> Inr (C_OK, store_target target v)))
               else if encoding ob = OBJ_ENCODING_INT then
                 (case ptr_long (ptr ob) of
                    None \<Rightarrow> Inl Fault
                  | Some v \<Rightarrow> Inr (C_OK, store_target target v))
               else Inl (Panic ''Unknown string encoding'')))"

subsection \<open>Memory introspection\<close>

text \<open>
  What \<^verbatim>\<open>objectComputeSize\<close> takes from outside this file: \<^verbatim>\<open>sizeof(robj)\<close> and
  \<^verbatim>\<open>sizeof(dictEntry)\<close>, \<^verbatim>\<open>sdsAllocSize\<close> of the dynamic string library, and, for a
  value that is not a string, the number its branch computes from the container (a walk
  over at most \<^verbatim>\<open>sample_size\<close> elements, averaged in \<^verbatim>\<open>double\<close> arithmetic, or the
  module type's callback). All sizes are \<^verbatim>\<open>size_t\<close>.
\<close>

record size_env =
  sizeof_robj :: "64 word"
  sizeof_dictEntry :: "64 word"
  sdsAllocSize :: "sds \<Rightarrow> 64 word"
  container_size :: "robj \<Rightarrow> 64 word \<Rightarrow> 64 word"

definition OBJ_COMPUTE_SIZE_DEF_SAMPLES :: "64 word" where
  "OBJ_COMPUTE_SIZE_DEF_SAMPLES = 5"

definition objectComputeSize ::
  "size_env \<Rightarrow> server \<Rightarrow> addr \<Rightarrow> 64 word \<Rightarrow> error + 64 word" where
  "objectComputeSize env s a sample_size =
     (case objs s a of
        None \<Rightarrow> Inl Fault
      | Some ob \<Rightarrow>
          (case otype ob of
             OBJ_STRING \<Rightarrow>
               if encoding ob = OBJ_ENCODING_INT then Inr (sizeof_robj env)
               else if encoding ob = OBJ_ENCODING_RAW then
                 (case sds_of s ob of
                    None \<Rightarrow> Inl Fault
                  | Some sd \<Rightarrow> Inr (sdsAllocSize env sd + sizeof_robj env))
               else if encoding ob = OBJ_ENCODING_EMBSTR then
                 (case sds_of s ob of
                    None \<Rightarrow> Inl Fault
                  | Some sd \<Rightarrow> Inr (word_of_nat (sdslen sd) + 2 + sizeof_robj env))
               else Inl (Panic ''Unknown string encoding'')
           | OBJ_LIST \<Rightarrow>
               if encoding ob = OBJ_ENCODING_QUICKLIST \<or> encoding ob = OBJ_ENCODING_ZIPLIST
               then Inr (container_size env ob sample_size)
               else Inl (Panic ''Unknown list encoding'')
           | OBJ_SET \<Rightarrow>
               if encoding ob = OBJ_ENCODING_HT \<or> encoding ob = OBJ_ENCODING_INTSET
               then Inr (container_size env ob sample_size)
               else Inl (Panic ''Unknown set encoding'')
           | OBJ_ZSET \<Rightarrow>
               if encoding ob = OBJ_ENCODING_ZIPLIST \<or> encoding ob = OBJ_ENCODING_SKIPLIST
               then Inr (container_size env ob sample_size)
               else Inl (Panic ''Unknown sorted set encoding'')
           | OBJ_HASH \<Rightarrow>
               if encoding ob = OBJ_ENCODING_ZIPLIST \<or> encoding ob = OBJ_ENCODING_HT
               then Inr (container_size env ob sample_size)
               else Inl (Panic ''Unknown hash encoding'')
           | OBJ_MODULE \<Rightarrow> Inr (container_size env ob sample_size)
           | OBJ_TYPE_OTHER \<Rightarrow> Inl (Panic ''Unknown object type'')))"

subsection \<open>The MEMORY command\<close>

text \<open>
  The client of a command: its arguments (\<^verbatim>\<open>argc\<close> is their number), the key space of
  its database (\<^verbatim>\<open>c->db->dict\<close>, from the bytes of a key to the value stored), and the
  replies written to it so far. \<^verbatim>\<open>shared.syntaxerr\<close> and \<^verbatim>\<open>shared.nullbulk\<close> are
  two of the prebuilt replies.
\<close>

datatype shared_reply = syntaxerr | nullbulk

datatype reply =
  ReplyShared shared_reply | ReplyError string | ReplyLongLong "64 word"

record client =
  argv :: "addr list"
  db_dict :: "string \<rightharpoonup> addr"
  replies :: "reply list"

definition addReply :: "client \<Rightarrow> reply \<Rightarrow> client" where
  "addReply c r = c\<lparr>replies := replies c @ [r]\<rparr>"

text \<open>
  \<^verbatim>\<open>strcasecmp\<close> of the C library on two C strings, ASCII letters folded to lower case.
\<close>

definition tolower :: "char \<Rightarrow> char" where
  "tolower c =
     (if (65::nat) \<le> of_char c \<and> of_char c \<le> (90::nat)
      then char_of (of_char c + (32::nat)) else c)"

fun strcasecmp :: "string \<Rightarrow> string \<Rightarrow> int" where
  "strcasecmp [] [] = 0"
| "strcasecmp [] (y # ys) = - int (of_char (tolower y))"
| "strcasecmp (x # xs) [] = int (of_char (tolower x))"
| "strcasecmp (x # xs) (y # ys) =
     (if tolower x = tolower y then strcasecmp xs ys
      else int (of_char (tolower x)) - int (of_char (tolower y)))"

text \<open>\<^verbatim>\<open>c->argv[j]->ptr\<close> read as a dynamic string.\<close>

definition arg_sds :: "server \<Rightarrow> addr \<Rightarrow> error + sds" where
  "arg_sds s a =
     (case objs s a of
        None \<Rightarrow> Inl Fault
      | Some ob \<Rightarrow> (case sds_of s ob of None \<Rightarrow> Inl Fault | Some sd \<Rightarrow> Inr sd))"

definition getLongLongFromObjectOrReply ::
  "server \<Rightarrow> client \<Rightarrow> addr option \<Rightarrow> 64 word \<Rightarrow> string option
     \<Rightarrow> error + (int \<times> 64 word \<times> client)" where
  "getLongLongFromObjectOrReply s c o_ptr target msg =
     (case getLongLongFromObject s o_ptr (Some 0) of
        Inl e \<Rightarrow> Inl e
      | Inr (rc, v) \<Rightarrow>
          if rc \<noteq> C_OK then
            Inr (C_ERR, target,
                 addReply c (ReplyError
                   (case msg of Some m \<Rightarrow> m
                    | None \<Rightarrow> ''value is not an integer or out of range'')))
          else (case v of None \<Rightarrow> Inl Fault | Some x \<Rightarrow> Inr (C_OK, x, c)))"

definition objectCommandLookup :: "server \<Rightarrow> client \<Rightarrow> addr \<Rightarrow> error + addr option" where
  "objectCommandLookup s c key =
     (case arg_sds s key of
        Inl e \<Rightarrow> Inl e
      | Inr sd \<Rightarrow> Inr (db_dict c (sds_buf sd)))"

definition objectCommandLookupOrReply ::
  "server \<Rightarrow> client \<Rightarrow> addr \<Rightarrow> reply \<Rightarrow> error + (addr option \<times> client)" where
  "objectCommandLookupOrReply s c key r =
     (case objectCommandLookup s c key of
        Inl e \<Rightarrow> Inl e
      | Inr None \<Rightarrow> Inr (None, addReply c r)
      | Inr (Some a) \<Rightarrow> Inr (Some a, c))"

text \<open>
  The option loop of \<^verbatim>\<open>MEMORY USAGE\<close>, \<^verbatim>\<open>for (int j = 3; j < c->argc; j++)\<close>, over
  the arguments from index 3 on. The result is the client and the value of
  \<^verbatim>\<open>samples\<close> when the loop ends, or \<open>None\<close> when the command has replied and returned
  from inside the loop.
\<close>

fun usage_options ::
  "server \<Rightarrow> client \<Rightarrow> addr list \<Rightarrow> 64 word \<Rightarrow> error + (client \<times> 64 word option)" where
  "usage_options s c [] samples = Inr (c, Some samples)"
| "usage_options s c [a] samples =
     (case arg_sds s a of
        Inl e \<Rightarrow> Inl e
      | Inr sd \<Rightarrow> Inr (addReply c (ReplyShared syntaxerr), None))"
| "usage_options s c (a # b # rest) samples =
     (case arg_sds s a of
        Inl e \<Rightarrow> Inl e
      | Inr sd \<Rightarrow>
          if strcasecmp (c_str (sds_buf sd)) ''samples'' = 0 then
            (case getLongLongFromObjectOrReply s c (Some b) samples None of
               Inl e \<Rightarrow> Inl e
             | Inr (rc, v, c1) \<Rightarrow>
                 if rc = C_ERR then Inr (c1, None)
                 else if sint v < 0 then Inr (addReply c1 (ReplyShared syntaxerr), None)
                 else usage_options s c1 rest (if v = 0 then LLONG_MAX else v))
          else Inr (addReply c (ReplyShared syntaxerr), None))"

text \<open>
  \<^verbatim>\<open>memoryCommand\<close>. The branch for \<^verbatim>\<open>usage\<close> is the code's; the other subcommands
  (\<^verbatim>\<open>stats\<close>, \<^verbatim>\<open>malloc-stats\<close>, \<^verbatim>\<open>doctor\<close>, \<^verbatim>\<open>purge\<close>, \<^verbatim>\<open>help\<close> and the
  syntax error) are the parameter \<open>others\<close>.
\<close>

definition memoryCommand ::
  "size_env \<Rightarrow> (server \<Rightarrow> client \<Rightarrow> error + client) \<Rightarrow> server \<Rightarrow> client \<Rightarrow> error + client" where
  "memoryCommand env others s c =
     (case argv c of
        a0 # a1 # _ \<Rightarrow>
          (case arg_sds s a1 of
             Inl e \<Rightarrow> Inl e
           | Inr sub \<Rightarrow>
               if strcasecmp (c_str (sds_buf sub)) ''usage'' = 0 \<and> length (argv c) \<ge> 3 then
                 (case usage_options s c (drop 3 (argv c)) OBJ_COMPUTE_SIZE_DEF_SAMPLES of
                    Inl e \<Rightarrow> Inl e
                  | Inr (c1, None) \<Rightarrow> Inr c1
                  | Inr (c1, Some samples) \<Rightarrow>
                      (case objectCommandLookupOrReply s c1 (argv c ! 2) (ReplyShared nullbulk) of
                         Inl e \<Rightarrow> Inl e
                       | Inr (None, c2) \<Rightarrow> Inr c2
                       | Inr (Some ov, c2) \<Rightarrow>
                           (case objectComputeSize env s ov samples of
                              Inl e \<Rightarrow> Inl e
                            | Inr usage \<Rightarrow>
                                (case arg_sds s (argv c ! 2) of
                                   Inl e \<Rightarrow> Inl e
                                 | Inr key \<Rightarrow>
                                     Inr (addReply c2
                                            (ReplyLongLong
                                               (usage + sdsAllocSize env key
                                                  + sizeof_dictEntry env)))))))
               else others s c)
      | _ \<Rightarrow> Inl Fault)"

subsection \<open>Well-formed values\<close>

text \<open>
  A string value as section 3 of the spec has it: kind String, encoding Raw, EmbStr or Int,
  and the payload the encoding asks for (a live independently allocated dynamic string, the
  embedded one, or the integer in the payload slot).
\<close>

definition valid_string :: "server \<Rightarrow> robj \<Rightarrow> bool" where
  "valid_string s ob \<longleftrightarrow>
     otype ob = OBJ_STRING \<and>
     (case encoding ob of
        OBJ_ENCODING_RAW \<Rightarrow> (case ptr ob of PSds a \<Rightarrow> sdss s a \<noteq> None | _ \<Rightarrow> False)
      | OBJ_ENCODING_EMBSTR \<Rightarrow> (case ptr ob of PEmb sd \<Rightarrow> True | _ \<Rightarrow> False)
      | OBJ_ENCODING_INT \<Rightarrow> (case ptr ob of PLong v \<Rightarrow> True | _ \<Rightarrow> False)
      | _ \<Rightarrow> False)"

text \<open>
  Modelled from the spec: the start-up code that fills \<^verbatim>\<open>shared.integers\<close> is in
  \<^verbatim>\<open>server.c\<close>, not under \<^verbatim>\<open>src/\<close>. The spec's registry "holds exactly one immortal
  value for every integer in \<^verbatim>\<open>[0, SHARED_INT_LIMIT)\<close>": entry \<open>j\<close> is a live
  integer-encoded string with payload \<open>j\<close> and \<^verbatim>\<open>refcount = SHARED\<close>.
\<close>

definition shared_integer_ok :: "server \<Rightarrow> nat \<Rightarrow> bool" where
  "shared_integer_ok s j \<longleftrightarrow>
     (case objs s (shared_integers s j) of
        None \<Rightarrow> False
      | Some ob \<Rightarrow>
          otype ob = OBJ_STRING \<and> encoding ob = OBJ_ENCODING_INT
          \<and> refcount ob = OBJ_SHARED_REFCOUNT \<and> ptr ob = PLong (word_of_nat j))"

text \<open>The encoding and the bytes of the string value at an address.\<close>

definition encoding_at :: "server \<Rightarrow> addr \<Rightarrow> obj_encoding option" where
  "encoding_at s a = map_option encoding (objs s a)"

definition bytes_at :: "server \<Rightarrow> addr \<Rightarrow> string option" where
  "bytes_at s a =
     (case objs s a of
        None \<Rightarrow> None
      | Some ob \<Rightarrow> (case compare_bytes s ob of Inl e \<Rightarrow> None | Inr bs \<Rightarrow> Some bs))"

subsection \<open>Concrete states\<close>

text \<open>
  A server just after start-up: the ten thousand shared integers at the addresses 0 to
  9999, nothing else allocated, no memory limit. \<open>demo_with\<close> adds one header at address
  10000 and one dynamic string at address 20000; \<open>demo_limited\<close> is the same server
  with a memory limit and an LRU eviction policy.
\<close>

definition demo_server :: server where
  "demo_server =
     \<lparr>objs = (\<lambda>a. if a < 10000
                   then Some \<lparr>otype = OBJ_STRING, encoding = OBJ_ENCODING_INT, lru = 0,
                              refcount = OBJ_SHARED_REFCOUNT, ptr = PLong (word_of_nat a)\<rparr>
                   else None),
      sdss = Map.empty, next_addr = 20001, ext_calls = [], maxmemory = 0,
      maxmemory_policy = 0, shared_integers = (\<lambda>j. j), lru_clock = 0, lfu_minutes = 0\<rparr>"

definition demo_with :: "robj \<Rightarrow> sds \<Rightarrow> server" where
  "demo_with ob sd =
     demo_server\<lparr>objs := (objs demo_server)(10000 \<mapsto> ob),
                 sdss := (sdss demo_server)(20000 \<mapsto> sd)\<rparr>"

definition demo_limited :: "robj \<Rightarrow> sds \<Rightarrow> server" where
  "demo_limited ob sd = (demo_with ob sd)\<lparr>maxmemory := 1048576, maxmemory_policy := 1\<rparr>"

definition demo_sds :: "string \<Rightarrow> sds" where
  "demo_sds bs = \<lparr>sds_buf = bs, sds_avail = 0\<rparr>"

definition demo_embstr :: "int \<Rightarrow> string \<Rightarrow> robj" where
  "demo_embstr rc bs =
     \<lparr>otype = OBJ_STRING, encoding = OBJ_ENCODING_EMBSTR, lru = 0, refcount = rc,
      ptr = PEmb (demo_sds bs)\<rparr>"

definition demo_raw :: "int \<Rightarrow> robj" where
  "demo_raw rc =
     \<lparr>otype = OBJ_STRING, encoding = OBJ_ENCODING_RAW, lru = 0, refcount = rc,
      ptr = PSds 20000\<rparr>"

definition demo_int :: "int \<Rightarrow> 64 word \<Rightarrow> robj" where
  "demo_int rc v =
     \<lparr>otype = OBJ_STRING, encoding = OBJ_ENCODING_INT, lru = 0, refcount = rc,
      ptr = PLong v\<rparr>"

text \<open>
  Stand-ins for the parameters of the numeric coercions: a floating type whose values are
  the integers, the non-zero subnormal numbers (\<open>Subnormal n\<close> is \<open>n\<close> times the
  smallest positive \<^verbatim>\<open>double\<close>, for \<open>n\<close> other than 0), the two infinities and a
  NaN; and a \<^verbatim>\<open>strtod\<close> that reads decimal integers and consumes nothing of any other
  text.
\<close>

datatype demo_float = Finite int | Subnormal int | Infinity | MinusInfinity | NotANumber

definition demo_float_ops :: "demo_float float_ops" where
  "demo_float_ops =
     \<lparr>HUGE_VAL = Infinity,
      fneg = (\<lambda>x. case x of Finite n \<Rightarrow> Finite (- n) | Subnormal n \<Rightarrow> Subnormal (- n)
                    | Infinity \<Rightarrow> MinusInfinity
                    | MinusInfinity \<Rightarrow> Infinity | NotANumber \<Rightarrow> NotANumber),
      feq = (\<lambda>x y. x = y \<and> x \<noteq> NotANumber),
      isnan = (\<lambda>x. x = NotANumber),
      of_long = (\<lambda>v. Finite (sint v))\<rparr>"

definition demo_strtod :: "string \<Rightarrow> demo_float strtod_result" where
  "demo_strtod bs =
     (case string2ll bs of
        Some v \<Rightarrow> \<lparr>sr_value = Finite (sint v), sr_consumed = length bs, sr_erange = False\<rparr>
      | None \<Rightarrow> \<lparr>sr_value = Finite 0, sr_consumed = 0, sr_erange = False\<rparr>)"

text \<open>
  The same \<^verbatim>\<open>strtod\<close> extended by one text, as the GNU C library parses it:
  \<^verbatim>\<open>1e-310\<close> is below the normal range of \<^verbatim>\<open>double\<close>, the result is the nearest
  subnormal number, all six bytes are consumed and \<^verbatim>\<open>errno\<close> is set to
  \<^verbatim>\<open>ERANGE\<close>.
\<close>

definition demo_strtod_underflow :: "string \<Rightarrow> demo_float strtod_result" where
  "demo_strtod_underflow bs =
     (if bs = ''1e-310''
      then \<lparr>sr_value = Subnormal 20240225330731, sr_consumed = 6, sr_erange = True\<rparr>
      else demo_strtod bs)"

text \<open>
  The server after \<^verbatim>\<open>createZiplistObject\<close> with the ziplist at address 30000: one
  list header in the compact encoding, with one reference, at address 20001.
\<close>

definition demo_ziplist_obj :: robj where
  "demo_ziplist_obj =
     \<lparr>otype = OBJ_LIST, encoding = OBJ_ENCODING_ZIPLIST, lru = 0, refcount = 1,
      ptr = PExt 30000\<rparr>"

definition demo_ziplist :: server where
  "demo_ziplist =
     demo_server\<lparr>objs := (objs demo_server)(20001 \<mapsto> demo_ziplist_obj),
                 next_addr := 20002\<rparr>"

text \<open>
  A client that sends \<^verbatim>\<open>MEMORY usage mykey\<close> followed by the given option arguments,
  on a server that holds the command's words at the addresses from 10000 on and a list
  under the key \<^verbatim>\<open>mykey\<close>; and sizes as on an LP64 build, with a stand-in for the
  container walk that returns its sample budget.
\<close>

definition demo_command :: server where
  "demo_command =
     demo_server\<lparr>objs := (objs demo_server)
        (10000 \<mapsto> demo_embstr 1 ''MEMORY'', 10001 \<mapsto> demo_embstr 1 ''usage'',
         10002 \<mapsto> demo_embstr 1 ''mykey'', 10003 \<mapsto> demo_embstr 1 ''SAMPLES'',
         10004 \<mapsto> demo_embstr 1 ''0'', 10005 \<mapsto> demo_embstr 1 ''3'',
         10006 \<mapsto> \<lparr>otype = OBJ_LIST, encoding = OBJ_ENCODING_QUICKLIST, lru = 0,
                    refcount = 1, ptr = PExt 30000\<rparr>)\<rparr>"

definition demo_client :: "addr list \<Rightarrow> client" where
  "demo_client opts =
     \<lparr>argv = [10000, 10001, 10002] @ opts, db_dict = [''mykey'' \<mapsto> 10006], replies = []\<rparr>"

definition demo_env :: size_env where
  "demo_env =
     \<lparr>sizeof_robj = 16, sizeof_dictEntry = 24,
      sdsAllocSize = (\<lambda>sd. word_of_nat (length (sds_buf sd) + sds_avail sd) + 4),
      container_size = (\<lambda>ob n. n)\<rparr>"

text \<open>
  A value that \<^verbatim>\<open>tryObjectEncoding\<close> returns as it is, with the state unchanged, and
  whose encoding and bytes can be read.
\<close>

definition settled :: "server \<Rightarrow> addr \<Rightarrow> bool" where
  "settled s a \<longleftrightarrow>
     tryObjectEncoding s a = Inr (a, s)
     \<and> (\<exists>enc bs. encoding_at s a = Some enc \<and> bytes_at s a = Some bs)"

section \<open>Properties\<close>

subsection \<open>Branches of re-encoding\<close>

lemma valid_string_sds:
  assumes "valid_string s ob" and "sdsEncodedObject ob"
  shows "(encoding ob = OBJ_ENCODING_RAW \<and> (\<exists>p sd. ptr ob = PSds p \<and> sdss s p = Some sd))
       \<or> (encoding ob = OBJ_ENCODING_EMBSTR \<and> (\<exists>sd. ptr ob = PEmb sd))"
  using assms
  by (auto simp: valid_string_def sdsEncodedObject_def split: payload.splits)

lemma decr_string_raw:
  assumes "objs s a = Some ob" and "refcount ob = 1" and "otype ob = OBJ_STRING"
    and "encoding ob = OBJ_ENCODING_RAW" and "ptr ob = PSds p" and "sdss s p = Some sd"
  shows "decrRefCount s a = Inr (s\<lparr>sdss := (sdss s)(p := None), objs := (objs s)(a := None)\<rparr>)"
  using assms
  by (simp add: decrRefCount_def free_by_type_def freeStringObject_def sdsfree_def zfree_obj_def)

lemma decr_string_other:
  assumes "objs s a = Some ob" and "refcount ob = 1" and "otype ob = OBJ_STRING"
    and "encoding ob \<noteq> OBJ_ENCODING_RAW"
  shows "decrRefCount s a = Inr (s\<lparr>objs := (objs s)(a := None)\<rparr>)"
  using assms
  by (simp add: decrRefCount_def free_by_type_def freeStringObject_def zfree_obj_def)

lemma decr_nonpositive:
  assumes "objs s a = Some ob" and "refcount ob \<le> 0"
  shows "decrRefCount s a = Inl (Panic ''decrRefCount against refcount <= 0'')"
  using assms by (simp add: decrRefCount_def)

lemma incr_shared:
  assumes "objs s a = Some ob" and "refcount ob = OBJ_SHARED_REFCOUNT"
  shows "incrRefCount s a = Inr s"
  using assms by (simp add: incrRefCount_def)

lemma string2l_7: "string2l ''7'' = Some 7"
  by (simp add: string2l_def string2ll_def is_number_def is_digit_def digits_val_def
      digit_val_def LONG_MIN_def LONG_MAX_def)

lemma string2l_12345: "string2l ''12345'' = Some 12345"
  by (simp add: string2l_def string2ll_def is_number_def is_digit_def digits_val_def
      digit_val_def LONG_MIN_def LONG_MAX_def)

lemma shared_integer_ok_demo_with:
  "j < 10000 \<Longrightarrow> shared_integer_ok (demo_with ob sd) j"
  by (simp add: shared_integer_ok_def demo_with_def demo_server_def)

lemma try_passthrough:
  assumes "objs s a = Some ob" and "otype ob = OBJ_STRING"
    and "\<not> sdsEncodedObject ob \<or> 1 < refcount ob"
  shows "tryObjectEncoding s a = Inr (a, s)"
  using assms by (auto simp: tryObjectEncoding_def)

lemma try_parsed:
  assumes "objs s a = Some ob" and "otype ob = OBJ_STRING" and "sdsEncodedObject ob"
    and "refcount ob \<le> 1" and "sds_of s ob = Some sd"
    and "(if sdslen sd \<le> 20 then string2l (sds_buf sd) else None) = Some v"
  shows "tryObjectEncoding s a =
      (if shared_integers_allowed s \<and> sint v \<ge> 0 \<and> sint v < OBJ_SHARED_INTEGERS
       then (case decrRefCount s a of
               Inl e \<Rightarrow> Inl e
             | Inr s1 \<Rightarrow>
                 (case incrRefCount s1 (shared_integers s1 (nat (sint v))) of
                    Inl e \<Rightarrow> Inl e
                  | Inr s2 \<Rightarrow> Inr (shared_integers s2 (nat (sint v)), s2)))
       else (case (if encoding ob = OBJ_ENCODING_RAW then sdsfree s (ptr ob) else Inr s) of
               Inl e \<Rightarrow> Inl e
             | Inr s1 \<Rightarrow>
                 Inr (a, set_obj s1 a (ob\<lparr>encoding := OBJ_ENCODING_INT, ptr := PLong v\<rparr>))))"
  using assms by (simp add: tryObjectEncoding_def)

lemma try_unparsed:
  assumes "objs s a = Some ob" and "otype ob = OBJ_STRING" and "sdsEncodedObject ob"
    and "refcount ob \<le> 1" and "sds_of s ob = Some sd"
    and "(if sdslen sd \<le> 20 then string2l (sds_buf sd) else None) = None"
  shows "tryObjectEncoding s a =
      (if sdslen sd \<le> OBJ_ENCODING_EMBSTR_SIZE_LIMIT then
         (if encoding ob = OBJ_ENCODING_EMBSTR then Inr (a, s)
          else
            (case createEmbeddedStringObject s (Some (sds_buf sd)) (sdslen sd) of
               Inl e \<Rightarrow> Inl e
             | Inr (emb, s1) \<Rightarrow>
                 (case decrRefCount s1 a of
                    Inl e \<Rightarrow> Inl e
                  | Inr s2 \<Rightarrow> Inr (emb, s2))))
       else if encoding ob = OBJ_ENCODING_RAW \<and> sdsavail sd > sdslen sd div 10
       then (case shrink_payload s (ptr ob) of Inl e \<Rightarrow> Inl e | Inr s1 \<Rightarrow> Inr (a, s1))
       else Inr (a, s))"
  using assms by (simp add: tryObjectEncoding_def)

text \<open>The shared-integer branch on a value with one reference.\<close>

lemma try_shared:
  assumes live: "objs s a = Some ob" and valid: "valid_string s ob"
    and form: "sdsEncodedObject ob" and rc: "refcount ob = 1"
    and sd: "sds_of s ob = Some sd"
    and parse: "(if sdslen sd \<le> 20 then string2l (sds_buf sd) else None) = Some v"
    and sh: "shared_integers_allowed s" "0 \<le> sint v" "sint v < 10000"
    and ok: "shared_integer_ok s (nat (sint v))"
  shows "\<exists>s1. decrRefCount s a = Inr s1
           \<and> incrRefCount s1 (shared_integers s (nat (sint v))) = Inr s1
           \<and> objs s1 = (objs s)(a := None)
           \<and> shared_integers s (nat (sint v)) \<noteq> a
           \<and> tryObjectEncoding s a = Inr (shared_integers s (nat (sint v)), s1)"
proof -
  have ty: "otype ob = OBJ_STRING" using valid by (simp add: valid_string_def)
  let ?sh = "shared_integers s (nat (sint v))"
  from ok obtain shob where shob: "objs s ?sh = Some shob"
    "encoding shob = OBJ_ENCODING_INT" "refcount shob = OBJ_SHARED_REFCOUNT"
    by (auto simp: shared_integer_ok_def split: option.splits)
  have ne: "?sh \<noteq> a" using shob live form by (auto simp: sdsEncodedObject_def)
  from valid_string_sds [OF valid form]
  obtain s1 where s1: "decrRefCount s a = Inr s1" "objs s1 = (objs s)(a := None)"
    "shared_integers s1 = shared_integers s"
  proof
    assume "encoding ob = OBJ_ENCODING_RAW \<and> (\<exists>p sd. ptr ob = PSds p \<and> sdss s p = Some sd)"
    then obtain p sd' where "encoding ob = OBJ_ENCODING_RAW" "ptr ob = PSds p"
      "sdss s p = Some sd'"
      by blast
    with decr_string_raw [OF live rc ty] that show ?thesis by simp
  next
    assume "encoding ob = OBJ_ENCODING_EMBSTR \<and> (\<exists>sd. ptr ob = PEmb sd)"
    then have "encoding ob \<noteq> OBJ_ENCODING_RAW" by simp
    with decr_string_other [OF live rc ty] that show ?thesis by simp
  qed
  have "objs s1 ?sh = Some shob" using s1 shob ne by simp
  then have inc: "incrRefCount s1 ?sh = Inr s1" using shob(3) by (rule incr_shared)
  have "tryObjectEncoding s a = Inr (?sh, s1)"
    using try_parsed [OF live ty form _ sd parse] rc sh s1 inc
    by (simp add: OBJ_SHARED_INTEGERS_def)
  with s1 inc ne show ?thesis by blast
qed

lemma bytes_at_int:
  assumes "objs s a = Some ob" and "encoding ob = OBJ_ENCODING_INT" and "ptr ob = PLong v"
  shows "bytes_at s a = Some (ll2string v)"
  using assms by (simp add: bytes_at_def compare_bytes_def sdsEncodedObject_def ptr_long_def)

lemma bytes_at_sds:
  assumes "objs s a = Some ob" and "sdsEncodedObject ob" and "sds_of s ob = Some sd"
  shows "bytes_at s a = Some (sds_buf sd)"
  using assms by (simp add: bytes_at_def compare_bytes_def)

lemma valid_string_cases:
  assumes "valid_string s ob"
  shows "(sdsEncodedObject ob \<and> (\<exists>sd. sds_of s ob = Some sd))
       \<or> (encoding ob = OBJ_ENCODING_INT \<and> (\<exists>v. ptr ob = PLong v))"
  using assms
  by (auto simp: valid_string_def sdsEncodedObject_def sds_of_def
      split: obj_encoding.splits payload.splits)

lemma settled_passthrough:
  assumes "objs s a = Some ob" and "valid_string s ob"
    and "\<not> sdsEncodedObject ob \<or> 1 < refcount ob"
  shows "settled s a"
proof -
  have ty: "otype ob = OBJ_STRING" using assms(2) by (simp add: valid_string_def)
  have "\<exists>bs. bytes_at s a = Some bs"
    using valid_string_cases [OF assms(2)] bytes_at_int [OF assms(1)] bytes_at_sds [OF assms(1)]
    by blast
  then show ?thesis
    using try_passthrough [OF assms(1) ty assms(3)] assms(1)
    by (simp add: settled_def encoding_at_def)
qed


lemma settled_same:
  assumes "objs s a = Some ob" and "sdsEncodedObject ob" and "sds_of s ob = Some sd"
    and "tryObjectEncoding s a = Inr (a, s)"
  shows "settled s a"
  using assms bytes_at_sds [OF assms(1,2,3)] by (simp add: settled_def encoding_at_def)

lemma try_inplace:
  assumes live: "objs s a = Some ob" and valid: "valid_string s ob"
    and form: "sdsEncodedObject ob" and rc: "refcount ob \<le> 1"
    and sd: "sds_of s ob = Some sd"
    and parse: "(if sdslen sd \<le> 20 then string2l (sds_buf sd) else None) = Some v"
    and nsh: "\<not> (shared_integers_allowed s \<and> 0 \<le> sint v \<and> sint v < 10000)"
  shows "\<exists>s1. tryObjectEncoding s a = Inr (a, s1) \<and> settled s1 a"
proof -
  have ty: "otype ob = OBJ_STRING" using valid by (simp add: valid_string_def)
  let ?ob' = "ob\<lparr>encoding := OBJ_ENCODING_INT, ptr := PLong v\<rparr>"
  from valid_string_sds [OF valid form]
  obtain s0 where s0: "(if encoding ob = OBJ_ENCODING_RAW then sdsfree s (ptr ob) else Inr s) = Inr s0"
    by (auto simp: sdsfree_def)
  let ?s1 = "set_obj s0 a ?ob'"
  have res: "tryObjectEncoding s a = Inr (a, ?s1)"
    using try_parsed [OF live ty form rc sd parse] nsh s0
    by (simp add: OBJ_SHARED_INTEGERS_def)
  have live1: "objs ?s1 a = Some ?ob'" by (simp add: set_obj_def)
  have valid1: "valid_string ?s1 ?ob'" using ty by (simp add: valid_string_def)
  have "settled ?s1 a"
    using settled_passthrough [OF live1 valid1] by (simp add: sdsEncodedObject_def)
  with res show ?thesis by blast
qed

lemma try_embed:
  assumes live: "objs s a = Some ob" and valid: "valid_string s ob"
    and raw: "encoding ob = OBJ_ENCODING_RAW" and rc: "refcount ob = 1"
    and sd: "sds_of s ob = Some sd"
    and parse: "(if sdslen sd \<le> 20 then string2l (sds_buf sd) else None) = None"
    and len: "sdslen sd \<le> OBJ_ENCODING_EMBSTR_SIZE_LIMIT"
    and fresh: "a \<noteq> next_addr s"
  shows "\<exists>s1. tryObjectEncoding s a = Inr (next_addr s, s1) \<and> settled s1 (next_addr s)"
proof -
  have ty: "otype ob = OBJ_STRING" using valid by (simp add: valid_string_def)
  have form: "sdsEncodedObject ob" using raw by (simp add: sdsEncodedObject_def)
  from valid_string_sds [OF valid form] raw
  obtain p sd' where p: "ptr ob = PSds p" "sdss s p = Some sd'" by auto
  let ?e = "next_addr s"
  let ?emb = "\<lparr>otype = OBJ_STRING, encoding = OBJ_ENCODING_EMBSTR, lru = initial_lru s,
               refcount = 1, ptr = PEmb \<lparr>sds_buf = sds_buf sd, sds_avail = 0\<rparr>\<rparr>"
  let ?s1 = "s\<lparr>next_addr := Suc ?e, objs := (objs s)(?e \<mapsto> ?emb)\<rparr>"
  have cr: "createEmbeddedStringObject s (Some (sds_buf sd)) (sdslen sd) = Inr (?e, ?s1)"
    by (simp add: createEmbeddedStringObject_def zmalloc_def copy_bytes_def sdslen_def)
  have live1: "objs ?s1 a = Some ob" using live fresh by simp
  have "sdss ?s1 p = Some sd'" using p by simp
  from decr_string_raw [OF live1 rc ty raw p(1) this]
  obtain s2 where s2: "decrRefCount ?s1 a = Inr s2"
    "objs s2 = (objs ?s1)(a := None)" by simp
  have res: "tryObjectEncoding s a = Inr (?e, s2)"
    using try_unparsed [OF live ty form _ sd parse] rc len raw cr s2 by simp
  have live2: "objs s2 ?e = Some ?emb" using s2 fresh by simp
  have form2: "sdsEncodedObject ?emb" by (simp add: sdsEncodedObject_def)
  have sd2: "sds_of s2 ?emb = Some \<lparr>sds_buf = sds_buf sd, sds_avail = 0\<rparr>"
    by (simp add: sds_of_def)
  have parse2: "(if sdslen \<lparr>sds_buf = sds_buf sd, sds_avail = 0\<rparr> \<le> 20
                 then string2l (sds_buf \<lparr>sds_buf = sds_buf sd, sds_avail = 0\<rparr>) else None) = None"
    using parse by (simp add: sdslen_def split: if_splits)
  have "tryObjectEncoding s2 ?e = Inr (?e, s2)"
    using try_unparsed [OF live2 _ form2 _ sd2 parse2] len by (simp add: sdslen_def)
  from settled_same [OF live2 form2 sd2 this] res show ?thesis by blast
qed

lemma try_shrink:
  assumes live: "objs s a = Some ob" and valid: "valid_string s ob"
    and raw: "encoding ob = OBJ_ENCODING_RAW" and rc: "refcount ob \<le> 1"
    and sd: "sds_of s ob = Some sd"
    and parse: "(if sdslen sd \<le> 20 then string2l (sds_buf sd) else None) = None"
    and len: "\<not> sdslen sd \<le> OBJ_ENCODING_EMBSTR_SIZE_LIMIT"
    and avail: "sdsavail sd > sdslen sd div 10"
  shows "\<exists>s1. tryObjectEncoding s a = Inr (a, s1) \<and> settled s1 a"
proof -
  have ty: "otype ob = OBJ_STRING" using valid by (simp add: valid_string_def)
  have form: "sdsEncodedObject ob" using raw by (simp add: sdsEncodedObject_def)
  from valid_string_sds [OF valid form] raw
  obtain p sd' where p: "ptr ob = PSds p" "sdss s p = Some sd'" by auto
  have sd': "sd' = sd" using sd p by (simp add: sds_of_def)
  let ?sd1 = "sdsRemoveFreeSpace sd"
  let ?s1 = "s\<lparr>sdss := (sdss s)(p \<mapsto> ?sd1)\<rparr>"
  have sh: "shrink_payload s (ptr ob) = Inr ?s1" using p sd' by (simp add: shrink_payload_def)
  have res: "tryObjectEncoding s a = Inr (a, ?s1)"
    using try_unparsed [OF live ty form rc sd parse] len raw avail sh by simp
  have live1: "objs ?s1 a = Some ob" using live by simp
  have sd1: "sds_of ?s1 ob = Some ?sd1" using p by (simp add: sds_of_def)
  have parse1: "(if sdslen ?sd1 \<le> 20 then string2l (sds_buf ?sd1) else None) = None"
    using parse by (simp add: sdslen_def sdsRemoveFreeSpace_def split: if_splits)
  have "tryObjectEncoding ?s1 a = Inr (a, ?s1)"
    using try_unparsed [OF live1 ty form rc sd1 parse1] len
    by (simp add: sdslen_def sdsavail_def sdsRemoveFreeSpace_def)
  from settled_same [OF live1 form sd1 this] res show ?thesis by blast
qed

lemma try_shared_settled:
  assumes live: "objs s a = Some ob" and valid: "valid_string s ob"
    and form: "sdsEncodedObject ob" and rc: "refcount ob = 1"
    and sd: "sds_of s ob = Some sd"
    and parse: "(if sdslen sd \<le> 20 then string2l (sds_buf sd) else None) = Some v"
    and sh: "shared_integers_allowed s" "0 \<le> sint v" "sint v < 10000"
    and ok: "shared_integer_ok s (nat (sint v))"
  shows "\<exists>s1. tryObjectEncoding s a = Inr (shared_integers s (nat (sint v)), s1)
           \<and> settled s1 (shared_integers s (nat (sint v)))"
proof -
  let ?sh = "shared_integers s (nat (sint v))"
  from try_shared [OF assms]
  obtain s1 where s1: "objs s1 = (objs s)(a := None)" "?sh \<noteq> a"
    "tryObjectEncoding s a = Inr (?sh, s1)" by blast
  from ok obtain shob where shob: "objs s ?sh = Some shob" "otype shob = OBJ_STRING"
    "encoding shob = OBJ_ENCODING_INT" "ptr shob = PLong (word_of_nat (nat (sint v)))"
    by (auto simp: shared_integer_ok_def split: option.splits)
  have live1: "objs s1 ?sh = Some shob" using s1 shob by simp
  have valid1: "valid_string s1 shob" using shob by (simp add: valid_string_def)
  have "settled s1 ?sh"
    using settled_passthrough [OF live1 valid1] shob by (simp add: sdsEncodedObject_def)
  with s1 show ?thesis by blast
qed

lemma try_panics:
  assumes live: "objs s a = Some ob" and valid: "valid_string s ob"
    and form: "sdsEncodedObject ob" and rc: "refcount ob \<le> 0"
    and sd: "sds_of s ob = Some sd"
    and fresh: "a \<noteq> next_addr s"
    and br: "(\<exists>v. (if sdslen sd \<le> 20 then string2l (sds_buf sd) else None) = Some v
                \<and> shared_integers_allowed s \<and> 0 \<le> sint v \<and> sint v < 10000)
           \<or> ((if sdslen sd \<le> 20 then string2l (sds_buf sd) else None) = None
                \<and> sdslen sd \<le> OBJ_ENCODING_EMBSTR_SIZE_LIMIT
                \<and> encoding ob = OBJ_ENCODING_RAW)"
  shows "tryObjectEncoding s a = Inl (Panic ''decrRefCount against refcount <= 0'')"
proof -
  have ty: "otype ob = OBJ_STRING" using valid by (simp add: valid_string_def)
  have rc1: "refcount ob \<le> 1" using rc by simp
  from br show ?thesis
  proof
    assume "\<exists>v. (if sdslen sd \<le> 20 then string2l (sds_buf sd) else None) = Some v
                \<and> shared_integers_allowed s \<and> 0 \<le> sint v \<and> sint v < 10000"
    then obtain v where v: "(if sdslen sd \<le> 20 then string2l (sds_buf sd) else None) = Some v"
      "shared_integers_allowed s" "0 \<le> sint v" "sint v < 10000" by blast
    show ?thesis
      using try_parsed [OF live ty form rc1 sd v(1)] v decr_nonpositive [OF live rc]
      by (simp add: OBJ_SHARED_INTEGERS_def)
  next
    assume h: "(if sdslen sd \<le> 20 then string2l (sds_buf sd) else None) = None
                \<and> sdslen sd \<le> OBJ_ENCODING_EMBSTR_SIZE_LIMIT
                \<and> encoding ob = OBJ_ENCODING_RAW"
    let ?e = "next_addr s"
    let ?emb = "\<lparr>otype = OBJ_STRING, encoding = OBJ_ENCODING_EMBSTR, lru = initial_lru s,
               refcount = 1, ptr = PEmb \<lparr>sds_buf = sds_buf sd, sds_avail = 0\<rparr>\<rparr>"
    let ?s1 = "s\<lparr>next_addr := Suc ?e, objs := (objs s)(?e \<mapsto> ?emb)\<rparr>"
    have cr: "createEmbeddedStringObject s (Some (sds_buf sd)) (sdslen sd) = Inr (?e, ?s1)"
      by (simp add: createEmbeddedStringObject_def zmalloc_def copy_bytes_def sdslen_def)
    have live1: "objs ?s1 a = Some ob" using live fresh by simp
    show ?thesis
      using try_unparsed [OF live ty form rc1 sd] h cr decr_nonpositive [OF live1 rc]
      by simp
  qed
qed


lemma try_outcome:
  assumes live: "objs s a = Some ob" and valid: "valid_string s ob"
    and fresh: "a \<noteq> next_addr s"
    and registry: "\<forall>j<10000. shared_integer_ok s j"
  shows "(refcount ob \<le> 0
            \<and> tryObjectEncoding s a = Inl (Panic ''decrRefCount against refcount <= 0''))
       \<or> (\<exists>a1 s1. tryObjectEncoding s a = Inr (a1, s1) \<and> settled s1 a1)"
proof (cases "\<not> sdsEncodedObject ob \<or> 1 < refcount ob")
  case True
  from settled_passthrough [OF live valid True] show ?thesis
    by (auto simp: settled_def)
next
  case False
  then have form: "sdsEncodedObject ob" and rc: "refcount ob \<le> 1" by auto
  have ty: "otype ob = OBJ_STRING" using valid by (simp add: valid_string_def)
  from valid_string_cases [OF valid] form obtain sd where sd: "sds_of s ob = Some sd"
    by (auto simp: sdsEncodedObject_def)
  show ?thesis
  proof (cases "if sdslen sd \<le> 20 then string2l (sds_buf sd) else None")
    case (Some v)
    show ?thesis
    proof (cases "shared_integers_allowed s \<and> 0 \<le> sint v \<and> sint v < 10000")
      case sh: True
      then have "nat (sint v) < 10000" by auto
      with registry have ok: "shared_integer_ok s (nat (sint v))" by blast
      show ?thesis
      proof (cases "refcount ob = 1")
        case True
        from try_shared_settled [OF live valid form True sd Some _ _ _ ok] sh
        show ?thesis by blast
      next
        case False
        with rc have rc0: "refcount ob \<le> 0" by simp
        from try_panics [OF live valid form rc0 sd fresh] Some sh rc0
        show ?thesis by blast
      qed
    next
      case False
      from try_inplace [OF live valid form rc sd Some False] show ?thesis by blast
    qed
  next
    case None
    show ?thesis
    proof (cases "sdslen sd \<le> OBJ_ENCODING_EMBSTR_SIZE_LIMIT")
      case len: True
      show ?thesis
      proof (cases "encoding ob = OBJ_ENCODING_EMBSTR")
        case True
        have "tryObjectEncoding s a = Inr (a, s)"
          using try_unparsed [OF live ty form rc sd None] len True by simp
        from settled_same [OF live form sd this] this show ?thesis by blast
      next
        case False
        with form have raw: "encoding ob = OBJ_ENCODING_RAW"
          by (simp add: sdsEncodedObject_def)
        show ?thesis
        proof (cases "refcount ob = 1")
          case True
          from try_embed [OF live valid raw True sd None len fresh] show ?thesis by blast
        next
          case False
          with rc have rc0: "refcount ob \<le> 0" by simp
          from try_panics [OF live valid form rc0 sd fresh] None len raw rc0
          show ?thesis by blast
        qed
      qed
    next
      case len: False
      show ?thesis
      proof (cases "encoding ob = OBJ_ENCODING_RAW \<and> sdsavail sd > sdslen sd div 10")
        case True
        from try_shrink [OF live valid _ rc sd None len] True show ?thesis by blast
      next
        case False
        have "tryObjectEncoding s a = Inr (a, s)"
          using try_unparsed [OF live ty form rc sd None] len False by auto
        from settled_same [OF live form sd this] this show ?thesis by blast
      qed
    qed
  qed
qed

lemma registry_demo_with: "\<forall>j<10000. shared_integer_ok (demo_with ob sd) j"
  by (simp add: shared_integer_ok_demo_with)

text \<open>No free routine touches the store of headers.\<close>

lemma free_by_type_objs:
  assumes "free_by_type s ob = Inr s1"
  shows "objs s1 = objs s"
proof (cases "otype ob")
  case OBJ_STRING
  with assms show ?thesis
    by (auto simp: free_by_type_def freeStringObject_def sdsfree_def
        split: if_splits payload.splits option.splits)
next
  case OBJ_LIST
  with assms show ?thesis
    by (auto simp: free_by_type_def freeListObject_def ext_call_def split: if_splits)
next
  case OBJ_SET
  with assms show ?thesis
    by (auto simp: free_by_type_def freeSetObject_def ext_call_def split: obj_encoding.splits)
next
  case OBJ_ZSET
  with assms show ?thesis
    by (auto simp: free_by_type_def freeZsetObject_def ext_call_def split: obj_encoding.splits)
next
  case OBJ_HASH
  with assms show ?thesis
    by (auto simp: free_by_type_def freeHashObject_def ext_call_def split: obj_encoding.splits)
next
  case OBJ_MODULE
  with assms show ?thesis
    by (auto simp: free_by_type_def freeModuleObject_def ext_call_def)
next
  case OBJ_TYPE_OTHER
  with assms show ?thesis by (simp add: free_by_type_def)
qed

subsection \<open>Decimal text and byte comparison\<close>

lemma memcmp_zero_iff:
  "n \<le> length xs \<Longrightarrow> n \<le> length ys \<Longrightarrow> memcmp xs ys n = 0 \<longleftrightarrow> take n xs = take n ys"
  by (induction xs ys n rule: memcmp.induct) auto

lemma digits_val_snoc: "digits_val (cs @ [c]) = 10 * digits_val cs + digit_val c"
  by (simp add: digits_val_def)

lemma digit_val_char: "d < 10 \<Longrightarrow> digit_val (char_of (48 + d)) = d"
  by (simp add: digit_val_def)

lemma digits_val_decimal: "digits_val (decimal n) = n"
proof (induction n rule: decimal.induct)
  case (1 n)
  show ?case
  proof (cases "n < 10")
    case True
    then show ?thesis
      by (subst decimal.simps) (simp add: digits_val_def digit_val_char)
  next
    case False
    with 1 have "digits_val (decimal (n div 10)) = n div 10" by simp
    with False show ?thesis
      by (subst decimal.simps) (simp add: digits_val_snoc digit_val_char)
  qed
qed

lemma decimal_inj: "decimal n = decimal m \<Longrightarrow> n = m"
  by (metis digits_val_decimal)

lemma decimal_digits: "c \<in> set (decimal n) \<Longrightarrow> is_digit c"
proof (induction n rule: decimal.induct)
  case (1 n)
  show ?case
  proof (cases "n < 10")
    case True
    with "1.prems" show ?thesis
      by (subst (asm) decimal.simps) (simp add: is_digit_def)
  next
    case False
    with 1 show ?thesis
      by (subst (asm) (2) decimal.simps) (auto simp: is_digit_def)
  qed
qed

lemma decimal_nonempty: "decimal n \<noteq> []"
  by (subst decimal.simps) simp

lemma decimal_length: "n < 10 ^ k \<Longrightarrow> 0 < k \<Longrightarrow> length (decimal n) \<le> k"
proof (induction n arbitrary: k rule: decimal.induct)
  case (1 n)
  show ?case
  proof (cases "n < 10")
    case True
    with "1.prems" show ?thesis by (subst decimal.simps) simp
  next
    case False
    with "1.prems" obtain k' where k: "k = Suc k'" by (cases k) auto
    with False "1.prems" have "0 < k'" by (cases k') auto
    moreover from "1.prems" k have "n div 10 < 10 ^ k'" by (simp add: less_mult_imp_div_less mult.commute)
    ultimately have "length (decimal (n div 10)) \<le> k'" using "1.IH" False by simp
    with False k show ?thesis by (subst decimal.simps) simp
  qed
qed


lemma ll2string_length: "length (ll2string v) \<le> 20"
proof -
  have b: "- (2 ^ 63) \<le> sint v" "sint v < 2 ^ 63"
    using sint_ge [of v] sint_lt [of v] by simp_all
  have p: "(2::nat) ^ 63 < 10 ^ 19" by simp
  show ?thesis
  proof (cases "sint v < 0")
    case True
    with b have "nat (- sint v) \<le> 2 ^ 63" by simp
    with p have "nat (- sint v) < 10 ^ 19" by linarith
    from decimal_length [OF this] True show ?thesis by (simp add: ll2string_def)
  next
    case False
    with b have "nat (sint v) < 2 ^ 63" by simp
    with p have "nat (sint v) < 10 ^ 19" by linarith
    from decimal_length [OF this] False show ?thesis by (simp add: ll2string_def)
  qed
qed

lemma ll2string_inj:
  assumes "ll2string v = ll2string w"
  shows "v = w"
proof -
  have nd: "\<not> is_digit CHR ''-''" by (simp add: is_digit_def)
  have hd_digit: "\<And>n. hd (decimal n) \<noteq> CHR ''-''"
    using decimal_digits decimal_nonempty nd by (metis hd_in_set)
  have "sint v = sint w"
  proof (cases "sint v < 0")
    case True
    show ?thesis
    proof (cases "sint w < 0")
      case wn: True
      with True assms have "decimal (nat (- sint v)) = decimal (nat (- sint w))"
        by (simp add: ll2string_def)
      from decimal_inj [OF this] True wn show ?thesis by simp
    next
      case False
      with True assms have "CHR ''-'' # decimal (nat (- sint v)) = decimal (nat (sint w))"
        by (simp add: ll2string_def)
      then have "hd (decimal (nat (sint w))) = CHR ''-''" by (metis list.sel(1))
      with hd_digit show ?thesis by blast
    qed
  next
    case False
    show ?thesis
    proof (cases "sint w < 0")
      case True
      with False assms have "decimal (nat (sint v)) = CHR ''-'' # decimal (nat (- sint w))"
        by (simp add: ll2string_def)
      then have "hd (decimal (nat (sint v))) = CHR ''-''" by (metis list.sel(1))
      with hd_digit show ?thesis by blast
    next
      case wp: False
      with False assms have "decimal (nat (sint v)) = decimal (nat (sint w))"
        by (simp add: ll2string_def)
      from decimal_inj [OF this] False wp show ?thesis by simp
    qed
  qed
  then show ?thesis by (rule signed_word_eqI)
qed

lemma size_diff_zero_iff:
  assumes "x \<le> 20" and "y \<le> 20"
  shows "size_diff x y = 0 \<longleftrightarrow> x = y"
proof
  assume "x = y"
  then show "size_diff x y = 0" by (simp add: size_diff_def)
next
  assume z: "size_diff x y = 0"
  let ?w = "(word_of_nat x :: 64 word) - word_of_nat y"
  from z have "(ucast ?w :: 32 word) = 0" by (simp add: size_diff_def signed_eq_0_iff)
  then have "uint (ucast ?w :: 32 word) = 0" by simp
  then have m: "uint ?w mod 2 ^ 32 = 0" by (simp add: take_bit_eq_mod unsigned_ucast_eq)
  have ux: "uint (word_of_nat x :: 64 word) = int x"
    using assms(1) by (simp add: unsigned_of_nat take_bit_nat_eq_self)
  have uy: "uint (word_of_nat y :: 64 word) = int y"
    using assms(2) by (simp add: unsigned_of_nat take_bit_nat_eq_self)
  have "uint ?w = (int x - int y) mod 2 ^ 64"
    by (simp only: uint_word_ariths ux uy) simp
  with m have "(int x - int y) mod 2 ^ 64 mod 2 ^ 32 = 0" by simp
  moreover have "(2::int) ^ 32 dvd 2 ^ 64" by (simp add: le_imp_power_dvd)
  ultimately have "(int x - int y) mod 2 ^ 32 = 0"
    by (simp only: mod_mod_cancel)
  then have d: "2 ^ 32 dvd (int x - int y)" by (simp only: mod_eq_0_iff_dvd)
  have b: "\<bar>int x - int y\<bar> < 2 ^ 32" using assms by simp
  have "int x - int y = 0"
  proof (rule ccontr)
    assume nz: "int x - int y \<noteq> 0"
    from dvd_imp_le_int [OF nz d] have "2 ^ 32 \<le> \<bar>int x - int y\<bar>" by simp
    with b show False by simp
  qed
  then show "x = y" by simp
qed


lemma binary_compare_zero_iff:
  assumes "length xs \<le> 20" and "length ys \<le> 20"
  shows "(let alen = length xs; blen = length ys;
              minlen = (if alen < blen then alen else blen);
              cmp = memcmp xs ys minlen
          in if cmp = 0 then size_diff alen blen else cmp) = 0 \<longleftrightarrow> xs = ys"
proof -
  let ?m = "if length xs < length ys then length xs else length ys"
  have m: "?m \<le> length xs" "?m \<le> length ys" by simp_all
  note mz = memcmp_zero_iff [OF m]
  show ?thesis
  proof (cases "memcmp xs ys ?m = 0")
    case True
    with mz have tk: "take ?m xs = take ?m ys" by simp
    have "size_diff (length xs) (length ys) = 0 \<longleftrightarrow> xs = ys"
    proof
      assume "size_diff (length xs) (length ys) = 0"
      with size_diff_zero_iff [OF assms] have "length xs = length ys" by simp
      with tk show "xs = ys" by simp
    next
      assume "xs = ys"
      then show "size_diff (length xs) (length ys) = 0" by (simp add: size_diff_def)
    qed
    with True show ?thesis by (simp add: Let_def)
  next
    case False
    with mz have "take ?m xs \<noteq> take ?m ys" by simp
    then have "xs \<noteq> ys" by auto
    with False show ?thesis by (simp add: Let_def)
  qed
qed

lemma compare_bytes_valid:
  assumes "valid_string s ob"
  shows "\<exists>bs. compare_bytes s ob = Inr bs"
  using valid_string_cases [OF assms]
  by (auto simp: compare_bytes_def sdsEncodedObject_def ptr_long_def)

lemma compare_returns:
  assumes "objs s a = Some oa" and "objs s b = Some ob"
    and "valid_string s oa" and "valid_string s ob"
  shows "\<exists>c. compareStringObjects strcoll s a b = Inr c"
proof -
  from compare_bytes_valid [OF assms(3)] obtain xs where xs: "compare_bytes s oa = Inr xs" ..
  from compare_bytes_valid [OF assms(4)] obtain ys where ys: "compare_bytes s ob = Inr ys" ..
  have ty: "otype oa = OBJ_STRING" "otype ob = OBJ_STRING"
    using assms(3,4) by (simp_all add: valid_string_def)
  show ?thesis
    using assms(1,2) ty xs ys
    by (simp add: compareStringObjects_def compareStringObjectsWithFlags_def Let_def)
qed

lemma compare_int_int:
  assumes la: "objs s a = Some oa" and lb: "objs s b = Some ob"
    and ta: "otype oa = OBJ_STRING" and tb: "otype ob = OBJ_STRING"
    and ea: "encoding oa = OBJ_ENCODING_INT" and eb: "encoding ob = OBJ_ENCODING_INT"
    and pa: "ptr oa = PLong x" and pb: "ptr ob = PLong y"
    and c: "compareStringObjects strcoll s a b = Inr c"
  shows "c = 0 \<longleftrightarrow> x = y"
proof (cases "a = b")
  case True
  with la lb pa pb have "x = y" by simp
  moreover from True la lb ta tb c have "c = 0"
    by (simp add: compareStringObjects_def compareStringObjectsWithFlags_def)
  ultimately show ?thesis by simp
next
  case False
  have ba: "compare_bytes s oa = Inr (ll2string x)"
    using ea pa by (simp add: compare_bytes_def sdsEncodedObject_def ptr_long_def)
  have bb: "compare_bytes s ob = Inr (ll2string y)"
    using eb pb by (simp add: compare_bytes_def sdsEncodedObject_def ptr_long_def)
  have flag: "REDIS_COMPARE_BINARY AND REDIS_COMPARE_COLL = 0"
    by (simp add: REDIS_COMPARE_BINARY_def REDIS_COMPARE_COLL_def)
  have "c = (let alen = length (ll2string x); blen = length (ll2string y);
              minlen = (if alen < blen then alen else blen);
              cmp = memcmp (ll2string x) (ll2string y) minlen
          in if cmp = 0 then size_diff alen blen else cmp)"
    using c la lb ta tb False ba bb flag
    by (simp add: compareStringObjects_def compareStringObjectsWithFlags_def Let_def
        split: if_splits)
  with binary_compare_zero_iff [OF ll2string_length ll2string_length, of x y]
  have "c = 0 \<longleftrightarrow> ll2string x = ll2string y" by simp
  then show ?thesis using ll2string_inj by auto
qed

subsection \<open>Parsing\<close>

lemma isspace_first_byte:
  "isspace (first_byte bs) \<longleftrightarrow> (\<exists>c cs. bs = c # cs \<and> isspace c)"
  by (cases bs) (simp_all add: first_byte_def isspace_def)

lemma string2ll_42: "string2ll ''42'' = Some 42"
  by (simp add: string2ll_def is_number_def is_digit_def digits_val_def digit_val_def)

subsection \<open>The command on the concrete client\<close>

lemma lookup_stored:
  assumes "arg_sds s key = Inr keysd" and "db_dict c (sds_buf keysd) = Some ov"
  shows "objectCommandLookupOrReply s c key r = Inr (Some ov, c)"
  using assms by (simp add: objectCommandLookupOrReply_def objectCommandLookup_def)

lemma memoryCommand_usage:
  assumes args: "argv c = a0 # a1 # key # opts"
    and sub: "arg_sds s a1 = Inr subsd"
    and usage: "strcasecmp (c_str (sds_buf subsd)) ''usage'' = 0"
    and keysd: "arg_sds s key = Inr keysd"
    and stored: "db_dict c (sds_buf keysd) = Some ov"
    and opts: "usage_options s c opts OBJ_COMPUTE_SIZE_DEF_SAMPLES = Inr (c, Some n)"
  shows "memoryCommand env others s c =
           (case objectComputeSize env s ov n of
              Inl e \<Rightarrow> Inl e
            | Inr sz \<Rightarrow>
                Inr (addReply c
                       (ReplyLongLong (sz + sdsAllocSize env keysd + sizeof_dictEntry env))))"
proof -
  have db: "db_dict c (sds_buf keysd) = Some ov" by (fact stored)
  show ?thesis
    using args sub usage keysd opts lookup_stored [OF keysd db]
    by (simp add: memoryCommand_def split: sum.splits)
qed

lemma demo_arg_sds:
  "arg_sds demo_command 10001 = Inr (demo_sds ''usage'')"
  "arg_sds demo_command 10002 = Inr (demo_sds ''mykey'')"
  "arg_sds demo_command 10003 = Inr (demo_sds ''SAMPLES'')"
  by (simp_all add: arg_sds_def demo_command_def sds_of_def demo_embstr_def)

lemma demo_strcasecmp:
  "strcasecmp (c_str (sds_buf (demo_sds ''usage''))) ''usage'' = 0"
  "strcasecmp (c_str (sds_buf (demo_sds ''SAMPLES''))) ''samples'' = 0"
  by (simp_all add: demo_sds_def c_str_def tolower_def)

lemma demo_samples:
  "getLongLongFromObject demo_command (Some 10004) (Some 0) = Inr (C_OK, Some 0)"
  "getLongLongFromObject demo_command (Some 10005) (Some 0) = Inr (C_OK, Some 3)"
  by (simp_all add: getLongLongFromObject_def demo_command_def demo_embstr_def demo_sds_def
      sdsEncodedObject_def sds_of_def string2ll_def is_number_def is_digit_def
      digits_val_def digit_val_def store_target_def)

lemma demo_size:
  "objectComputeSize demo_env demo_command 10006 n = Inr n"
  by (simp add: objectComputeSize_def demo_command_def demo_env_def)

subsection \<open>Reference counts\<close>

text \<open>
  Claim C4. For a value whose \<^verbatim>\<open>refcount\<close> is the sentinel \<^verbatim>\<open>OBJ_SHARED_REFCOUNT\<close>,
  \<^verbatim>\<open>incrRefCount\<close> and \<^verbatim>\<open>decrRefCount\<close> both return with the whole state as it
  was: the reference count and every other field of the value are unchanged, the value is
  still in the store, and no free routine has run.
\<close>

theorem shared_refcount_untouched:
  assumes "objs s a = Some ob" and "refcount ob = OBJ_SHARED_REFCOUNT"
  shows "incrRefCount s a = Inr s \<and> decrRefCount s a = Inr s"
  using assms by (simp add: incrRefCount_def decrRefCount_def OBJ_SHARED_REFCOUNT_def)

theorem shared_refcount_untouched_witness:
  "objs demo_server 7 = Some (demo_int OBJ_SHARED_REFCOUNT 7)
   \<and> refcount (demo_int OBJ_SHARED_REFCOUNT 7) = OBJ_SHARED_REFCOUNT
   \<and> incrRefCount demo_server 7 = Inr demo_server
   \<and> decrRefCount demo_server 7 = Inr demo_server"
proof -
  have h1: "objs demo_server 7 = Some (demo_int OBJ_SHARED_REFCOUNT 7)"
    by (simp add: demo_server_def demo_int_def)
  have h2: "refcount (demo_int OBJ_SHARED_REFCOUNT 7) = OBJ_SHARED_REFCOUNT"
    by (simp add: demo_int_def)
  show ?thesis using shared_refcount_untouched [OF h1 h2] h1 h2 by simp
qed

text \<open>
  Claim C3, amended. \<^verbatim>\<open>decrRefCount\<close> on a live value: with \<^verbatim>\<open>refcount = 1\<close> it
  runs the free routine of the value's kind (String, List, Set, SortedSet, Hash, Module;
  any other kind is a panic). If the routine returns, the header is removed from the store
  and every other header is as it was; if the routine fails fatally, as it does on an
  encoding it does not handle, \<^verbatim>\<open>decrRefCount\<close> fails with it and the header is not
  deallocated. With \<^verbatim>\<open>refcount > 1\<close> on a value that is not shared it stores
  \<^verbatim>\<open>refcount - 1\<close> and changes nothing else. With \<^verbatim>\<open>refcount \<le> 0\<close> it panics.
\<close>

theorem decrRefCount_cases:
  assumes "objs s a = Some ob"
  shows "(refcount ob = 1 \<longrightarrow>
            decrRefCount s a =
              (case (case otype ob of
                       OBJ_STRING \<Rightarrow> freeStringObject s ob
                     | OBJ_LIST \<Rightarrow> freeListObject s ob
                     | OBJ_SET \<Rightarrow> freeSetObject s ob
                     | OBJ_ZSET \<Rightarrow> freeZsetObject s ob
                     | OBJ_HASH \<Rightarrow> freeHashObject s ob
                     | OBJ_MODULE \<Rightarrow> freeModuleObject s ob
                     | OBJ_TYPE_OTHER \<Rightarrow> Inl (Panic ''Unknown object type'')) of
                 Inl e \<Rightarrow> Inl e
               | Inr s1 \<Rightarrow> Inr (s1\<lparr>objs := (objs s1)(a := None)\<rparr>))
            \<and> (\<forall>s2. decrRefCount s a = Inr s2 \<longrightarrow> objs s2 = (objs s)(a := None)))
       \<and> (1 < refcount ob \<and> refcount ob \<noteq> OBJ_SHARED_REFCOUNT \<longrightarrow>
            decrRefCount s a =
              Inr (s\<lparr>objs := (objs s)(a \<mapsto> ob\<lparr>refcount := refcount ob - 1\<rparr>)\<rparr>))
       \<and> (refcount ob \<le> 0 \<longrightarrow>
            decrRefCount s a = Inl (Panic ''decrRefCount against refcount <= 0''))"
proof -
  have dealloc: "objs s2 = (objs s)(a := None)"
    if "refcount ob = 1" and "decrRefCount s a = Inr s2" for s2
  proof -
    from that assms obtain s1 where "free_by_type s ob = Inr s1" "s2 = zfree_obj s1 a"
      by (auto simp: decrRefCount_def split: sum.splits)
    with free_by_type_objs [of s ob s1] show ?thesis by (simp add: zfree_obj_def)
  qed
  have eqs: "refcount ob = 1 \<longrightarrow>
            decrRefCount s a =
              (case (case otype ob of
                       OBJ_STRING \<Rightarrow> freeStringObject s ob
                     | OBJ_LIST \<Rightarrow> freeListObject s ob
                     | OBJ_SET \<Rightarrow> freeSetObject s ob
                     | OBJ_ZSET \<Rightarrow> freeZsetObject s ob
                     | OBJ_HASH \<Rightarrow> freeHashObject s ob
                     | OBJ_MODULE \<Rightarrow> freeModuleObject s ob
                     | OBJ_TYPE_OTHER \<Rightarrow> Inl (Panic ''Unknown object type'')) of
                 Inl e \<Rightarrow> Inl e
               | Inr s1 \<Rightarrow> Inr (s1\<lparr>objs := (objs s1)(a := None)\<rparr>))"
    using assms unfolding decrRefCount_def free_by_type_def zfree_obj_def by simp
  have rest: "(1 < refcount ob \<and> refcount ob \<noteq> OBJ_SHARED_REFCOUNT \<longrightarrow>
            decrRefCount s a =
              Inr (s\<lparr>objs := (objs s)(a \<mapsto> ob\<lparr>refcount := refcount ob - 1\<rparr>)\<rparr>))
       \<and> (refcount ob \<le> 0 \<longrightarrow>
            decrRefCount s a = Inl (Panic ''decrRefCount against refcount <= 0''))"
    using assms by (simp add: decrRefCount_def)
  from dealloc eqs rest show ?thesis by blast
qed

theorem decrRefCount_cases_witness:
  "decrRefCount (demo_with (demo_raw 1) (demo_sds ''hello'')) 10000 = Inr demo_server
   \<and> decrRefCount (demo_with (demo_raw 3) (demo_sds ''hello'')) 10000
       = Inr (demo_with (demo_raw 2) (demo_sds ''hello''))
   \<and> decrRefCount (demo_with (demo_raw 0) (demo_sds ''hello'')) 10000
       = Inl (Panic ''decrRefCount against refcount <= 0'')"
proof -
  have l1: "objs (demo_with (demo_raw 1) (demo_sds ''hello'')) 10000 = Some (demo_raw 1)"
    and l3: "objs (demo_with (demo_raw 3) (demo_sds ''hello'')) 10000 = Some (demo_raw 3)"
    and l0: "objs (demo_with (demo_raw 0) (demo_sds ''hello'')) 10000 = Some (demo_raw 0)"
    by (simp_all add: demo_with_def)
  have "decrRefCount (demo_with (demo_raw 1) (demo_sds ''hello'')) 10000 = Inr demo_server"
    using decrRefCount_cases [OF l1]
    by (simp add: demo_raw_def demo_with_def demo_server_def freeStringObject_def sdsfree_def
        fun_eq_iff)
  moreover have "decrRefCount (demo_with (demo_raw 3) (demo_sds ''hello'')) 10000
       = Inr (demo_with (demo_raw 2) (demo_sds ''hello''))"
    using decrRefCount_cases [OF l3]
    by (simp add: demo_raw_def demo_with_def OBJ_SHARED_REFCOUNT_def)
  moreover have "decrRefCount (demo_with (demo_raw 0) (demo_sds ''hello'')) 10000
       = Inl (Panic ''decrRefCount against refcount <= 0'')"
    using decrRefCount_cases [OF l0] by (simp add: demo_raw_def)
  ultimately show ?thesis by simp
qed

text \<open>
  The claim as first stated, that the header of every value that is not shared and has
  \<^verbatim>\<open>refcount = 1\<close> is deallocated after the dispatch, fails on the list that
  \<^verbatim>\<open>createZiplistObject\<close> builds: \<^verbatim>\<open>freeListObject\<close> knows the quicklist encoding
  only and panics, and \<^verbatim>\<open>zfree(o)\<close> is never reached.
\<close>

theorem decrRefCount_ziplist_counterexample:
  "createZiplistObject demo_server (PExt 30000) = Inr (20001, demo_ziplist)
   \<and> objs demo_ziplist 20001 = Some demo_ziplist_obj
   \<and> otype demo_ziplist_obj = OBJ_LIST
   \<and> refcount demo_ziplist_obj = 1
   \<and> refcount demo_ziplist_obj \<noteq> OBJ_SHARED_REFCOUNT
   \<and> decrRefCount demo_ziplist 20001 = Inl (Panic ''Unknown list encoding type'')"
  by (simp add: createZiplistObject_def createObject_def zmalloc_def set_obj_def
      initial_lru_def demo_ziplist_def demo_ziplist_obj_def demo_server_def
      OBJ_SHARED_REFCOUNT_def decrRefCount_def free_by_type_def freeListObject_def)

subsection \<open>String construction\<close>

text \<open>
  Claim C5. For a null buffer, or a buffer that holds at least \<^verbatim>\<open>len\<close> bytes,
  \<^verbatim>\<open>createStringObject\<close> returns a new value whose encoding is EmbStr if and only if
  \<^verbatim>\<open>len \<le> 44\<close>, and Raw otherwise.
\<close>

theorem createStringObject_encoding:
  assumes "p = None \<or> (\<exists>bs. p = Some bs \<and> len \<le> length bs)"
  shows "\<exists>a s1 ob. createStringObject s p len = Inr (a, s1) \<and> objs s1 a = Some ob
           \<and> (encoding ob = OBJ_ENCODING_EMBSTR \<longleftrightarrow> len \<le> 44)
           \<and> (encoding ob = OBJ_ENCODING_RAW \<longleftrightarrow> \<not> len \<le> 44)"
  using assms
  by (auto simp: createStringObject_def createEmbeddedStringObject_def
      createRawStringObject_def createObject_def sdsnewlen_def copy_bytes_def zmalloc_def
      OBJ_ENCODING_EMBSTR_SIZE_LIMIT_def split: prod.splits)

theorem createStringObject_encoding_witness:
  "(\<exists>a s1 ob. createStringObject demo_server (Some ''hello'') 5 = Inr (a, s1)
       \<and> objs s1 a = Some ob \<and> encoding ob = OBJ_ENCODING_EMBSTR)
   \<and> (\<exists>a s1 ob. createStringObject demo_server None 45 = Inr (a, s1)
       \<and> objs s1 a = Some ob \<and> encoding ob = OBJ_ENCODING_RAW)"
proof -
  have h1: "Some ''hello'' = None \<or> (\<exists>bs. Some ''hello'' = Some bs \<and> 5 \<le> length bs)"
    by simp
  have h2: "(None :: string option) = None \<or> (\<exists>bs. None = Some bs \<and> 45 \<le> length bs)"
    by simp
  show ?thesis
    using createStringObject_encoding [OF h1, of demo_server]
      createStringObject_encoding [OF h2, of demo_server]
    by auto
qed

text \<open>
  Claim C1. \<^verbatim>\<open>createStringObjectFromLongLong\<close> never reads the eviction policy: on a
  server with a memory limit and an LRU policy, where \<^verbatim>\<open>tryObjectEncoding\<close> would not
  use a shared integer, the call with 7 still returns \<^verbatim>\<open>shared.integers[7]\<close> and
  allocates nothing.
\<close>

theorem createStringObjectFromLongLong_ignores_policy:
  "\<not> shared_integers_allowed (demo_limited (demo_int 1 0) (demo_sds []))
   \<and> createStringObjectFromLongLong (demo_limited (demo_int 1 0) (demo_sds [])) 7
       = Inr (shared_integers (demo_limited (demo_int 1 0) (demo_sds [])) 7,
              demo_limited (demo_int 1 0) (demo_sds []))"
  by (simp add: shared_integers_allowed_def demo_limited_def demo_with_def demo_server_def
      MAXMEMORY_FLAG_NO_SHARED_INTEGERS_def MAXMEMORY_FLAG_LRU_def MAXMEMORY_FLAG_LFU_def
      createStringObjectFromLongLong_def OBJ_SHARED_INTEGERS_def incrRefCount_def)

subsection \<open>Re-encoding\<close>

text \<open>
  Claim C2, amended. Let a live string value be in a string-form encoding (Raw or EmbStr)
  with \<^verbatim>\<open>refcount \<le> 1\<close>, its length at most 20 and its bytes parsed by
  \<^verbatim>\<open>string2l\<close> as \<open>v\<close>. When shared integers are allowed, \<open>0 \<le> v < 10000\<close> and
  \<^verbatim>\<open>refcount = 1\<close>, \<^verbatim>\<open>tryObjectEncoding\<close> returns \<^verbatim>\<open>shared.integers[v]\<close>, after
  \<^verbatim>\<open>decrRefCount\<close> of the original (which frees it) and \<^verbatim>\<open>incrRefCount\<close> of the
  singleton (which leaves it as it is); with \<^verbatim>\<open>refcount \<le> 0\<close> in that case the
  \<^verbatim>\<open>decrRefCount\<close> panics. In every other case it frees the payload if the encoding was
  Raw, sets the encoding to Int with \<open>v\<close> in the payload slot, and returns the same
  header.
\<close>

theorem tryObjectEncoding_integer:
  assumes live: "objs s a = Some ob"
    and valid: "valid_string s ob"
    and form: "sdsEncodedObject ob"
    and rc: "refcount ob \<le> 1"
    and sd: "sds_of s ob = Some sd"
    and len: "sdslen sd \<le> 20"
    and parse: "string2l (sds_buf sd) = Some v"
  shows "(shared_integers_allowed s \<and> 0 \<le> sint v \<and> sint v < 10000
            \<and> shared_integer_ok s (nat (sint v)) \<and> refcount ob = 1 \<longrightarrow>
          (\<exists>s1. decrRefCount s a = Inr s1
                \<and> incrRefCount s1 (shared_integers s (nat (sint v))) = Inr s1
                \<and> objs s1 a = None
                \<and> tryObjectEncoding s a = Inr (shared_integers s (nat (sint v)), s1)))
       \<and> (shared_integers_allowed s \<and> 0 \<le> sint v \<and> sint v < 10000 \<and> refcount ob \<le> 0 \<longrightarrow>
            tryObjectEncoding s a = Inl (Panic ''decrRefCount against refcount <= 0''))
       \<and> (\<not> (shared_integers_allowed s \<and> 0 \<le> sint v \<and> sint v < 10000) \<longrightarrow>
          (\<exists>s1. (if encoding ob = OBJ_ENCODING_RAW then sdsfree s (ptr ob) else Inr s) = Inr s1
                \<and> (\<forall>p. ptr ob = PSds p \<and> encoding ob = OBJ_ENCODING_RAW \<longrightarrow> sdss s1 p = None)
                \<and> tryObjectEncoding s a =
                    Inr (a, s1\<lparr>objs := (objs s1)(a \<mapsto>
                           ob\<lparr>encoding := OBJ_ENCODING_INT, ptr := PLong v\<rparr>)\<rparr>)))"
proof -
  have ty: "otype ob = OBJ_STRING" using valid by (simp add: valid_string_def)
  have parsed: "(if sdslen sd \<le> 20 then string2l (sds_buf sd) else None) = Some v"
    using len parse by simp
  note branch = try_parsed [OF live ty form rc sd parsed]
  have shared: "\<exists>s1. decrRefCount s a = Inr s1
                \<and> incrRefCount s1 (shared_integers s (nat (sint v))) = Inr s1
                \<and> objs s1 a = None
                \<and> tryObjectEncoding s a = Inr (shared_integers s (nat (sint v)), s1)"
    if h: "shared_integers_allowed s \<and> 0 \<le> sint v \<and> sint v < 10000
            \<and> shared_integer_ok s (nat (sint v)) \<and> refcount ob = 1"
  proof -
    from h try_shared [OF live valid form _ sd parsed]
    obtain s1 where "decrRefCount s a = Inr s1"
      "incrRefCount s1 (shared_integers s (nat (sint v))) = Inr s1"
      "objs s1 = (objs s)(a := None)"
      "tryObjectEncoding s a = Inr (shared_integers s (nat (sint v)), s1)"
      by blast
    then show ?thesis by simp
  qed
  have panic: "tryObjectEncoding s a = Inl (Panic ''decrRefCount against refcount <= 0'')"
    if h: "shared_integers_allowed s \<and> 0 \<le> sint v \<and> sint v < 10000 \<and> refcount ob \<le> 0"
    using h branch decr_nonpositive [OF live] by (simp add: OBJ_SHARED_INTEGERS_def)
  have inplace: "\<exists>s1. (if encoding ob = OBJ_ENCODING_RAW then sdsfree s (ptr ob) else Inr s) = Inr s1
                \<and> (\<forall>p. ptr ob = PSds p \<and> encoding ob = OBJ_ENCODING_RAW \<longrightarrow> sdss s1 p = None)
                \<and> tryObjectEncoding s a =
                    Inr (a, s1\<lparr>objs := (objs s1)(a \<mapsto>
                           ob\<lparr>encoding := OBJ_ENCODING_INT, ptr := PLong v\<rparr>)\<rparr>)"
    if h: "\<not> (shared_integers_allowed s \<and> 0 \<le> sint v \<and> sint v < 10000)"
    using valid_string_sds [OF valid form] h branch
    by (auto simp: OBJ_SHARED_INTEGERS_def sdsfree_def set_obj_def)
  from shared panic inplace show ?thesis by blast
qed

theorem tryObjectEncoding_integer_witness:
  "tryObjectEncoding (demo_with (demo_embstr 1 ''7'') (demo_sds [])) 10000
     = Inr (7, (demo_with (demo_embstr 1 ''7'') (demo_sds []))
                 \<lparr>objs := (objs (demo_with (demo_embstr 1 ''7'') (demo_sds [])))(10000 := None)\<rparr>)
   \<and> tryObjectEncoding (demo_with (demo_raw 1) (demo_sds ''12345'')) 10000
     = Inr (10000, (demo_with (demo_int 1 12345) (demo_sds ''12345''))
                 \<lparr>sdss := Map.empty\<rparr>)"
proof -
  let ?s = "demo_with (demo_embstr 1 ''7'') (demo_sds [])"
  let ?ob = "demo_embstr 1 ''7''"
  have live: "objs ?s 10000 = Some ?ob" by (simp add: demo_with_def)
  have valid: "valid_string ?s ?ob" by (simp add: valid_string_def demo_embstr_def)
  have form: "sdsEncodedObject ?ob" by (simp add: sdsEncodedObject_def demo_embstr_def)
  have rc: "refcount ?ob \<le> 1" by (simp add: demo_embstr_def)
  have sd: "sds_of ?s ?ob = Some (demo_sds ''7'')" by (simp add: sds_of_def demo_embstr_def)
  have len: "sdslen (demo_sds ''7'') \<le> 20" by (simp add: sdslen_def demo_sds_def)
  have parse: "string2l (sds_buf (demo_sds ''7'')) = Some 7"
    by (simp add: demo_sds_def string2l_7)
  have allowed: "shared_integers_allowed ?s"
    by (simp add: shared_integers_allowed_def demo_with_def demo_server_def)
  have ok: "shared_integer_ok ?s 7" by (simp add: shared_integer_ok_demo_with)
  have dec: "decrRefCount ?s 10000 = Inr (?s\<lparr>objs := (objs ?s)(10000 := None)\<rparr>)"
    using decr_string_other [OF live] by (simp add: demo_embstr_def)
  have sh: "shared_integers ?s 7 = 7" by (simp add: demo_with_def demo_server_def)
  have first: "tryObjectEncoding ?s 10000 = Inr (7, ?s\<lparr>objs := (objs ?s)(10000 := None)\<rparr>)"
    using tryObjectEncoding_integer [OF live valid form rc sd len parse] allowed ok dec sh
    by (auto simp: demo_embstr_def)
  let ?t = "demo_with (demo_raw 1) (demo_sds ''12345'')"
  let ?ob2 = "demo_raw 1"
  have live2: "objs ?t 10000 = Some ?ob2" by (simp add: demo_with_def)
  have valid2: "valid_string ?t ?ob2"
    by (simp add: valid_string_def demo_raw_def demo_with_def)
  have form2: "sdsEncodedObject ?ob2" by (simp add: sdsEncodedObject_def demo_raw_def)
  have rc2: "refcount ?ob2 \<le> 1" by (simp add: demo_raw_def)
  have sd2: "sds_of ?t ?ob2 = Some (demo_sds ''12345'')"
    by (simp add: sds_of_def demo_raw_def demo_with_def)
  have len2: "sdslen (demo_sds ''12345'') \<le> 20" by (simp add: sdslen_def demo_sds_def)
  have parse2: "string2l (sds_buf (demo_sds ''12345'')) = Some 12345"
    by (simp add: demo_sds_def string2l_12345)
  have second: "tryObjectEncoding ?t 10000
     = Inr (10000, (demo_with (demo_int 1 12345) (demo_sds ''12345''))\<lparr>sdss := Map.empty\<rparr>)"
    using tryObjectEncoding_integer [OF live2 valid2 form2 rc2 sd2 len2 parse2]
    by (simp add: demo_raw_def demo_int_def sdsfree_def demo_with_def demo_server_def)
  show ?thesis using first second by simp
qed

text \<open>
  The claim as first stated, for every \<^verbatim>\<open>refcount \<le> 1\<close>, fails at \<^verbatim>\<open>refcount = 0\<close>,
  the state \<^verbatim>\<open>resetRefCount\<close> leaves behind: the string \<^verbatim>\<open>7\<close> is not replaced by
  the shared integer, the process panics.
\<close>

theorem tryObjectEncoding_refcount0_counterexample:
  "objs (demo_with (demo_embstr 0 ''7'') (demo_sds [])) 10000 = Some (demo_embstr 0 ''7'')
   \<and> otype (demo_embstr 0 ''7'') = OBJ_STRING
   \<and> encoding (demo_embstr 0 ''7'') = OBJ_ENCODING_EMBSTR
   \<and> refcount (demo_embstr 0 ''7'') \<le> 1
   \<and> sds_of (demo_with (demo_embstr 0 ''7'') (demo_sds [])) (demo_embstr 0 ''7'')
       = Some (demo_sds ''7'')
   \<and> sdslen (demo_sds ''7'') \<le> 20
   \<and> string2l (sds_buf (demo_sds ''7'')) = Some 7
   \<and> shared_integers_allowed (demo_with (demo_embstr 0 ''7'') (demo_sds []))
   \<and> shared_integer_ok (demo_with (demo_embstr 0 ''7'') (demo_sds [])) 7
   \<and> tryObjectEncoding (demo_with (demo_embstr 0 ''7'') (demo_sds [])) 10000
       = Inl (Panic ''decrRefCount against refcount <= 0'')"
  by (simp add: string2l_7 shared_integer_ok_demo_with)
     (simp add: demo_with_def demo_server_def demo_embstr_def demo_sds_def sds_of_def
      sdslen_def shared_integers_allowed_def tryObjectEncoding_def sdsEncodedObject_def
      string2l_7 OBJ_SHARED_INTEGERS_def decrRefCount_def)

text \<open>
  Claim C6. Take a live, well-formed string value in a state where the shared-integer
  table is as start-up leaves it and the value's address is not the allocator's next one.
  Whenever \<^verbatim>\<open>tryObjectEncoding\<close> returns a value, a second call on that value
  returns the same header with the state unchanged, so the encoding and the bytes after
  the second call are those after the first; and the first call does return whenever the
  value has at least one reference.
\<close>

theorem tryObjectEncoding_idempotent:
  assumes live: "objs s a = Some ob" and valid: "valid_string s ob"
    and fresh: "a \<noteq> next_addr s"
    and registry: "\<forall>j<10000. shared_integer_ok s j"
  shows "(\<forall>a1 s1. tryObjectEncoding s a = Inr (a1, s1) \<longrightarrow>
            (\<exists>a2 s2 enc bs. tryObjectEncoding s1 a1 = Inr (a2, s2)
               \<and> encoding_at s1 a1 = Some enc \<and> encoding_at s2 a2 = Some enc
               \<and> bytes_at s1 a1 = Some bs \<and> bytes_at s2 a2 = Some bs
               \<and> a2 = a1 \<and> s2 = s1))
       \<and> (1 \<le> refcount ob \<longrightarrow> (\<exists>a1 s1. tryObjectEncoding s a = Inr (a1, s1)))"
  using try_outcome [OF assms] by (auto simp: settled_def)

theorem tryObjectEncoding_idempotent_witness:
  "tryObjectEncoding (demo_with (demo_raw 1) (demo_sds ''hello'')) 10000
     = Inr (20001, (demo_with (demo_embstr 1 ''hello'') (demo_sds ''hello''))
                     \<lparr>objs := (objs demo_server)(20001 \<mapsto> demo_embstr 1 ''hello''),
                      sdss := Map.empty, next_addr := 20002\<rparr>)
   \<and> tryObjectEncoding ((demo_with (demo_embstr 1 ''hello'') (demo_sds ''hello''))
                     \<lparr>objs := (objs demo_server)(20001 \<mapsto> demo_embstr 1 ''hello''),
                      sdss := Map.empty, next_addr := 20002\<rparr>) 20001
     = Inr (20001, (demo_with (demo_embstr 1 ''hello'') (demo_sds ''hello''))
                     \<lparr>objs := (objs demo_server)(20001 \<mapsto> demo_embstr 1 ''hello''),
                      sdss := Map.empty, next_addr := 20002\<rparr>)"
proof -
  let ?s = "demo_with (demo_raw 1) (demo_sds ''hello'')"
  let ?r = "(demo_with (demo_embstr 1 ''hello'') (demo_sds ''hello''))
                     \<lparr>objs := (objs demo_server)(20001 \<mapsto> demo_embstr 1 ''hello''),
                      sdss := Map.empty, next_addr := 20002\<rparr>"
  have live: "objs ?s 10000 = Some (demo_raw 1)" by (simp add: demo_with_def)
  have valid: "valid_string ?s (demo_raw 1)"
    by (simp add: valid_string_def demo_raw_def demo_with_def)
  have fresh: "10000 \<noteq> next_addr ?s" by (simp add: demo_with_def demo_server_def)
  have first: "tryObjectEncoding ?s 10000 = Inr (20001, ?r)"
    by (simp add: tryObjectEncoding_def demo_with_def demo_server_def demo_raw_def
        demo_embstr_def demo_sds_def sdsEncodedObject_def sds_of_def sdslen_def
        string2l_def string2ll_def is_number_def is_digit_def
        OBJ_ENCODING_EMBSTR_SIZE_LIMIT_def createEmbeddedStringObject_def zmalloc_def
        copy_bytes_def initial_lru_def decrRefCount_def free_by_type_def
        freeStringObject_def sdsfree_def zfree_obj_def fun_eq_iff)
  have "\<forall>a1 s1. tryObjectEncoding ?s 10000 = Inr (a1, s1) \<longrightarrow>
          tryObjectEncoding s1 a1 = Inr (a1, s1)"
    using tryObjectEncoding_idempotent [OF live valid fresh registry_demo_with] by blast
  with first show ?thesis by blast
qed

subsection \<open>Comparison and equality\<close>

text \<open>
  Claim C7. For two live, well-formed string values, \<^verbatim>\<open>equalStringObjects\<close> and
  \<^verbatim>\<open>compareStringObjects\<close> (the binary comparison) both return, and
  \<^verbatim>\<open>equalStringObjects\<close> returns 1 if and only if \<^verbatim>\<open>compareStringObjects\<close>
  returns 0, and 0 otherwise. When both values are integer-encoded it returns 1 exactly
  when the two payload words are equal.
\<close>

theorem equalStringObjects_iff_compare:
  assumes la: "objs s a = Some oa" and lb: "objs s b = Some ob"
    and va: "valid_string s oa" and vb: "valid_string s ob"
  shows "\<exists>r c. equalStringObjects strcoll s a b = Inr r
           \<and> compareStringObjects strcoll s a b = Inr c
           \<and> (r = 1 \<or> r = 0)
           \<and> (r = 1 \<longleftrightarrow> c = 0)
           \<and> (encoding oa = OBJ_ENCODING_INT \<and> encoding ob = OBJ_ENCODING_INT \<longrightarrow>
                (r = 1 \<longleftrightarrow> ptr oa = ptr ob))"
proof -
  from compare_returns [OF assms] obtain c
    where c: "compareStringObjects strcoll s a b = Inr c" ..
  have ty: "otype oa = OBJ_STRING" "otype ob = OBJ_STRING"
    using va vb by (simp_all add: valid_string_def)
  show ?thesis
  proof (cases "encoding oa = OBJ_ENCODING_INT \<and> encoding ob = OBJ_ENCODING_INT")
    case True
    with va vb obtain x y where p: "ptr oa = PLong x" "ptr ob = PLong y"
      by (auto simp: valid_string_def split: payload.splits)
    from True have r: "equalStringObjects strcoll s a b = Inr (if ptr oa = ptr ob then 1 else 0)"
      using la lb by (simp add: equalStringObjects_def)
    from compare_int_int [OF la lb ty _ _ p c] True have "c = 0 \<longleftrightarrow> x = y" by simp
    with r c p show ?thesis by simp
  next
    case False
    then have "equalStringObjects strcoll s a b = Inr (if c = 0 then 1 else 0)"
      using la lb c by (auto simp: equalStringObjects_def)
    with c False show ?thesis by auto
  qed
qed

theorem equalStringObjects_iff_compare_witness:
  "equalStringObjects (\<lambda>x y. 0) (demo_with (demo_int 1 7) (demo_sds [])) 10000 7 = Inr 1
   \<and> compareStringObjects (\<lambda>x y. 0) (demo_with (demo_int 1 7) (demo_sds [])) 10000 7 = Inr 0
   \<and> equalStringObjects (\<lambda>x y. 0) (demo_with (demo_embstr 1 ''70'') (demo_sds [])) 10000 7
       = Inr 0
   \<and> compareStringObjects (\<lambda>x y. 0) (demo_with (demo_embstr 1 ''70'') (demo_sds [])) 10000 7
       = Inr 1"
proof -
  let ?s = "demo_with (demo_int 1 7) (demo_sds [])"
  let ?t = "demo_with (demo_embstr 1 ''70'') (demo_sds [])"
  have la: "objs ?s 10000 = Some (demo_int 1 7)" by (simp add: demo_with_def)
  have lb: "objs ?s 7 = Some (demo_int OBJ_SHARED_REFCOUNT 7)"
    by (simp add: demo_with_def demo_server_def demo_int_def)
  have va: "valid_string ?s (demo_int 1 7)"
    and vb: "valid_string ?s (demo_int OBJ_SHARED_REFCOUNT 7)"
    by (simp_all add: valid_string_def demo_int_def)
  have e1: "equalStringObjects (\<lambda>x y. 0) ?s 10000 7 = Inr 1"
    using la lb by (simp add: equalStringObjects_def demo_int_def)
  have la': "objs ?t 10000 = Some (demo_embstr 1 ''70'')" by (simp add: demo_with_def)
  have lb': "objs ?t 7 = Some (demo_int OBJ_SHARED_REFCOUNT 7)"
    by (simp add: demo_with_def demo_server_def demo_int_def)
  have va': "valid_string ?t (demo_embstr 1 ''70'')"
    and vb': "valid_string ?t (demo_int OBJ_SHARED_REFCOUNT 7)"
    by (simp_all add: valid_string_def demo_int_def demo_embstr_def)
  have "char_of (55::nat) = CHR ''7''" by code_simp
  then have seven: "ll2string 7 = ''7''"
    by (simp add: ll2string_def decimal.simps)
  have c2: "compareStringObjects (\<lambda>x y. 0) ?t 10000 7 = Inr 1"
    using la' lb'
    by (simp add: compareStringObjects_def compareStringObjectsWithFlags_def
        compare_bytes_def sdsEncodedObject_def sds_of_def ptr_long_def demo_embstr_def
        demo_int_def demo_sds_def seven REDIS_COMPARE_BINARY_def REDIS_COMPARE_COLL_def
        size_diff_def)
  from equalStringObjects_iff_compare [OF la lb va vb, of "\<lambda>x y. 0"] e1
  have c1: "compareStringObjects (\<lambda>x y. 0) ?s 10000 7 = Inr 0" by auto
  from equalStringObjects_iff_compare [OF la' lb' va' vb', of "\<lambda>x y. 0"] c2
  have e2: "equalStringObjects (\<lambda>x y. 0) ?t 10000 7 = Inr 0" by auto
  from e1 c1 e2 c2 show ?thesis by simp
qed

subsection \<open>Numeric coercions\<close>

text \<open>
  Claim C8, amended. For a live string value in a string-form encoding,
  \<^verbatim>\<open>getDoubleFromObject\<close> and \<^verbatim>\<open>getLongDoubleFromObject\<close> return \<^verbatim>\<open>C_ERR\<close>,
  leaving \<^verbatim>\<open>*target\<close> as it was, exactly when the bytes are empty, or begin with a
  whitespace character, or are not all consumed by \<^verbatim>\<open>strtod\<close> (\<^verbatim>\<open>strtold\<close>), or
  the parse reports \<^verbatim>\<open>ERANGE\<close> together with a result of \<^verbatim>\<open>HUGE_VAL\<close>,
  \<^verbatim>\<open>-HUGE_VAL\<close> or zero, or the result is a NaN; otherwise, also when the parse reports
  \<^verbatim>\<open>ERANGE\<close> with any other result, they return \<^verbatim>\<open>C_OK\<close> and store the parsed
  value. The library functions and the floating-point operations are parameters.
\<close>

theorem float_coercions_fail_exactly:
  assumes live: "objs s a = Some ob" and valid: "valid_string s ob"
    and form: "sdsEncodedObject ob" and sd: "sds_of s ob = Some sd"
  shows "(\<exists>rc out. getDoubleFromObject fp strtod s (Some a) target = Inr (rc, out)
            \<and> (rc = C_ERR \<longleftrightarrow>
                  sds_buf sd = []
                  \<or> (\<exists>c cs. sds_buf sd = c # cs \<and> isspace c)
                  \<or> sr_consumed (strtod (c_str (sds_buf sd))) \<noteq> length (sds_buf sd)
                  \<or> (sr_erange (strtod (c_str (sds_buf sd)))
                      \<and> (feq fp (sr_value (strtod (c_str (sds_buf sd)))) (HUGE_VAL fp)
                          \<or> feq fp (sr_value (strtod (c_str (sds_buf sd))))
                               (fneg fp (HUGE_VAL fp))
                          \<or> feq fp (sr_value (strtod (c_str (sds_buf sd)))) (of_long fp 0)))
                  \<or> isnan fp (sr_value (strtod (c_str (sds_buf sd)))))
            \<and> (if rc = C_ERR then out = target
                else rc = C_OK \<and> out = sr_value (strtod (c_str (sds_buf sd)))))
       \<and> (\<exists>rc out. getLongDoubleFromObject fpl strtold s (Some a) ltarget = Inr (rc, out)
            \<and> (rc = C_ERR \<longleftrightarrow>
                  sds_buf sd = []
                  \<or> (\<exists>c cs. sds_buf sd = c # cs \<and> isspace c)
                  \<or> sr_consumed (strtold (c_str (sds_buf sd))) \<noteq> length (sds_buf sd)
                  \<or> (sr_erange (strtold (c_str (sds_buf sd)))
                      \<and> (feq fpl (sr_value (strtold (c_str (sds_buf sd)))) (HUGE_VAL fpl)
                          \<or> feq fpl (sr_value (strtold (c_str (sds_buf sd))))
                               (fneg fpl (HUGE_VAL fpl))
                          \<or> feq fpl (sr_value (strtold (c_str (sds_buf sd)))) (of_long fpl 0)))
                  \<or> isnan fpl (sr_value (strtold (c_str (sds_buf sd)))))
            \<and> (if rc = C_ERR then out = ltarget
                else rc = C_OK \<and> out = sr_value (strtold (c_str (sds_buf sd)))))"
proof -
  have ty: "otype ob = OBJ_STRING" using valid by (simp add: valid_string_def)
  have ne: "C_OK \<noteq> C_ERR" by (simp add: C_OK_def C_ERR_def)
  have len: "sdslen sd = 0 \<longleftrightarrow> sds_buf sd = []" by (simp add: sdslen_def)
  show ?thesis
  proof (rule conjI)
    show "\<exists>rc out. getDoubleFromObject fp strtod s (Some a) target = Inr (rc, out)
            \<and> (rc = C_ERR \<longleftrightarrow>
                  sds_buf sd = []
                  \<or> (\<exists>c cs. sds_buf sd = c # cs \<and> isspace c)
                  \<or> sr_consumed (strtod (c_str (sds_buf sd))) \<noteq> length (sds_buf sd)
                  \<or> (sr_erange (strtod (c_str (sds_buf sd)))
                      \<and> (feq fp (sr_value (strtod (c_str (sds_buf sd)))) (HUGE_VAL fp)
                          \<or> feq fp (sr_value (strtod (c_str (sds_buf sd))))
                               (fneg fp (HUGE_VAL fp))
                          \<or> feq fp (sr_value (strtod (c_str (sds_buf sd)))) (of_long fp 0)))
                  \<or> isnan fp (sr_value (strtod (c_str (sds_buf sd)))))
            \<and> (if rc = C_ERR then out = target
                else rc = C_OK \<and> out = sr_value (strtod (c_str (sds_buf sd))))"
      using live ty form sd ne
      by (simp add: getDoubleFromObject_def Let_def len isspace_first_byte sdslen_def)
  next
    show "\<exists>rc out. getLongDoubleFromObject fpl strtold s (Some a) ltarget = Inr (rc, out)
            \<and> (rc = C_ERR \<longleftrightarrow>
                  sds_buf sd = []
                  \<or> (\<exists>c cs. sds_buf sd = c # cs \<and> isspace c)
                  \<or> sr_consumed (strtold (c_str (sds_buf sd))) \<noteq> length (sds_buf sd)
                  \<or> (sr_erange (strtold (c_str (sds_buf sd)))
                      \<and> (feq fpl (sr_value (strtold (c_str (sds_buf sd)))) (HUGE_VAL fpl)
                          \<or> feq fpl (sr_value (strtold (c_str (sds_buf sd))))
                               (fneg fpl (HUGE_VAL fpl))
                          \<or> feq fpl (sr_value (strtold (c_str (sds_buf sd)))) (of_long fpl 0)))
                  \<or> isnan fpl (sr_value (strtold (c_str (sds_buf sd)))))
            \<and> (if rc = C_ERR then out = ltarget
                else rc = C_OK \<and> out = sr_value (strtold (c_str (sds_buf sd))))"
      using live ty form sd ne
      by (simp add: getLongDoubleFromObject_def Let_def len isspace_first_byte sdslen_def)
  qed
qed

theorem float_coercions_fail_exactly_witness:
  "getDoubleFromObject demo_float_ops demo_strtod
      (demo_with (demo_embstr 1 ''42'') (demo_sds [])) (Some 10000) (Finite 0)
     = Inr (C_OK, Finite 42)
   \<and> getLongDoubleFromObject demo_float_ops demo_strtod
      (demo_with (demo_embstr 1 ''42'') (demo_sds [])) (Some 10000) (Finite 0)
     = Inr (C_OK, Finite 42)
   \<and> getDoubleFromObject demo_float_ops demo_strtod
      (demo_with (demo_embstr 1 '' 42'') (demo_sds [])) (Some 10000) (Finite 0)
     = Inr (C_ERR, Finite 0)"
proof -
  let ?s = "demo_with (demo_embstr 1 ''42'') (demo_sds [])"
  let ?t = "demo_with (demo_embstr 1 '' 42'') (demo_sds [])"
  have live: "objs ?s 10000 = Some (demo_embstr 1 ''42'')" by (simp add: demo_with_def)
  have valid: "valid_string ?s (demo_embstr 1 ''42'')"
    by (simp add: valid_string_def demo_embstr_def)
  have form: "sdsEncodedObject (demo_embstr 1 ''42'')"
    by (simp add: sdsEncodedObject_def demo_embstr_def)
  have sd: "sds_of ?s (demo_embstr 1 ''42'') = Some (demo_sds ''42'')"
    by (simp add: sds_of_def demo_embstr_def)
  have r: "demo_strtod (c_str (sds_buf (demo_sds ''42'')))
             = \<lparr>sr_value = Finite 42, sr_consumed = 2, sr_erange = False\<rparr>"
    by (simp add: demo_strtod_def c_str_def demo_sds_def string2ll_42)
  have sp: "\<not> isspace CHR ''4''" by (simp add: isspace_def)
  have ok: "getDoubleFromObject demo_float_ops demo_strtod ?s (Some 10000) (Finite 0)
              = Inr (C_OK, Finite 42)
          \<and> getLongDoubleFromObject demo_float_ops demo_strtod ?s (Some 10000) (Finite 0)
              = Inr (C_OK, Finite 42)"
    using float_coercions_fail_exactly [OF live valid form sd,
        of demo_float_ops demo_strtod "Finite 0" demo_float_ops demo_strtod "Finite 0"] r sp
    by (auto simp: demo_sds_def demo_float_ops_def split: if_splits)
  have live': "objs ?t 10000 = Some (demo_embstr 1 '' 42'')" by (simp add: demo_with_def)
  have valid': "valid_string ?t (demo_embstr 1 '' 42'')"
    by (simp add: valid_string_def demo_embstr_def)
  have form': "sdsEncodedObject (demo_embstr 1 '' 42'')"
    by (simp add: sdsEncodedObject_def demo_embstr_def)
  have sd': "sds_of ?t (demo_embstr 1 '' 42'') = Some (demo_sds '' 42'')"
    by (simp add: sds_of_def demo_embstr_def)
  have sp': "isspace CHR '' ''" by (simp add: isspace_def)
  have err: "getDoubleFromObject demo_float_ops demo_strtod ?t (Some 10000) (Finite 0)
              = Inr (C_ERR, Finite 0)"
    using float_coercions_fail_exactly [OF live' valid' form' sd',
        of demo_float_ops demo_strtod "Finite 0" demo_float_ops demo_strtod "Finite 0"] sp'
    by (auto simp: demo_sds_def split: if_splits)
  from ok err show ?thesis by simp
qed

text \<open>
  The claim as first stated, that every text denoting an out-of-range value is refused,
  fails on \<^verbatim>\<open>1e-310\<close>: the parse reports \<^verbatim>\<open>ERANGE\<close>, the result is a subnormal
  number that is neither zero nor infinite, and the code returns \<^verbatim>\<open>C_OK\<close> and stores
  it.
\<close>

theorem float_coercions_underflow_counterexample:
  "objs (demo_with (demo_embstr 1 ''1e-310'') (demo_sds [])) 10000
     = Some (demo_embstr 1 ''1e-310'')
   \<and> valid_string (demo_with (demo_embstr 1 ''1e-310'') (demo_sds []))
       (demo_embstr 1 ''1e-310'')
   \<and> sdsEncodedObject (demo_embstr 1 ''1e-310'')
   \<and> sr_erange (demo_strtod_underflow (c_str ''1e-310''))
   \<and> getDoubleFromObject demo_float_ops demo_strtod_underflow
       (demo_with (demo_embstr 1 ''1e-310'') (demo_sds [])) (Some 10000) (Finite 0)
       = Inr (C_OK, Subnormal 20240225330731)"
  by (simp add: demo_with_def demo_embstr_def demo_sds_def valid_string_def
      sdsEncodedObject_def sds_of_def sdslen_def c_str_def demo_strtod_underflow_def
      getDoubleFromObject_def demo_float_ops_def
      first_byte_def isspace_def Let_def)

text \<open>
  Claim C10. Given a null object pointer, \<^verbatim>\<open>getLongLongFromObject\<close>,
  \<^verbatim>\<open>getDoubleFromObject\<close> and \<^verbatim>\<open>getLongDoubleFromObject\<close> each return \<^verbatim>\<open>C_OK\<close>
  and store the value 0 (the first only when its \<^verbatim>\<open>target\<close> is not null).
\<close>

theorem coercions_of_null:
  "getLongLongFromObject s None (Some t) = Inr (C_OK, Some 0)
   \<and> getLongLongFromObject s None None = Inr (C_OK, None)
   \<and> getDoubleFromObject fp strtod s None d = Inr (C_OK, of_long fp 0)
   \<and> getLongDoubleFromObject fpl strtold s None ld = Inr (C_OK, of_long fpl 0)"
  by (simp add: getLongLongFromObject_def getDoubleFromObject_def
      getLongDoubleFromObject_def store_target_def)

theorem coercions_of_null_witness:
  "getLongLongFromObject demo_server None (Some 5) = Inr (C_OK, Some 0)
   \<and> getLongLongFromObject demo_server None None = Inr (C_OK, None)
   \<and> getDoubleFromObject demo_float_ops demo_strtod demo_server None (Finite 5)
       = Inr (C_OK, Finite 0)
   \<and> getLongDoubleFromObject demo_float_ops demo_strtod demo_server None (Finite 5)
       = Inr (C_OK, Finite 0)"
  using coercions_of_null [of demo_server 5 demo_float_ops demo_strtod "Finite 5"
      demo_float_ops demo_strtod "Finite 5"]
  by (simp add: demo_float_ops_def)

subsection \<open>MEMORY USAGE\<close>

text \<open>
  Claim C9. Let the second argument of \<^verbatim>\<open>MEMORY\<close> be \<^verbatim>\<open>usage\<close> in any letter case
  and the third a key stored in the client's database. With no further argument the command
  replies with \<^verbatim>\<open>objectComputeSize\<close> of the value for 5 samples, plus
  \<^verbatim>\<open>sdsAllocSize\<close> of the key argument's dynamic string, plus
  \<^verbatim>\<open>sizeof(dictEntry)\<close>. With \<^verbatim>\<open>SAMPLES n\<close> after the key, \<open>n\<close> a non-negative
  integer, the sample count is \<open>n\<close>, and \<^verbatim>\<open>LLONG_MAX\<close> when \<open>n\<close> is 0. A fatal
  failure of the size computation is the command's.
\<close>

theorem memory_usage_reply:
  assumes args: "argv c = a0 # a1 # key # opts"
    and sub: "arg_sds s a1 = Inr subsd"
    and usage: "strcasecmp (c_str (sds_buf subsd)) ''usage'' = 0"
    and keysd: "arg_sds s key = Inr keysd"
    and stored: "db_dict c (sds_buf keysd) = Some ov"
  shows "(opts = [] \<longrightarrow>
            memoryCommand env others s c =
              (case objectComputeSize env s ov 5 of
                 Inl e \<Rightarrow> Inl e
               | Inr sz \<Rightarrow>
                   Inr (addReply c
                          (ReplyLongLong (sz + sdsAllocSize env keysd + sizeof_dictEntry env)))))
       \<and> (\<forall>so n ssd v.
            opts = [so, n] \<and> arg_sds s so = Inr ssd
            \<and> strcasecmp (c_str (sds_buf ssd)) ''samples'' = 0
            \<and> getLongLongFromObject s (Some n) (Some 0) = Inr (C_OK, Some v)
            \<and> 0 \<le> sint v \<longrightarrow>
            memoryCommand env others s c =
              (case objectComputeSize env s ov (if v = 0 then LLONG_MAX else v) of
                 Inl e \<Rightarrow> Inl e
               | Inr sz \<Rightarrow>
                   Inr (addReply c
                          (ReplyLongLong (sz + sdsAllocSize env keysd + sizeof_dictEntry env)))))"
proof (intro conjI impI allI)
  assume "opts = []"
  then have "usage_options s c opts OBJ_COMPUTE_SIZE_DEF_SAMPLES = Inr (c, Some 5)"
    by (simp add: OBJ_COMPUTE_SIZE_DEF_SAMPLES_def)
  from memoryCommand_usage [OF args sub usage keysd stored this]
  show "memoryCommand env others s c =
              (case objectComputeSize env s ov 5 of
                 Inl e \<Rightarrow> Inl e
               | Inr sz \<Rightarrow>
                   Inr (addReply c
                          (ReplyLongLong (sz + sdsAllocSize env keysd + sizeof_dictEntry env))))" .
next
  fix so n ssd v
  assume h: "opts = [so, n] \<and> arg_sds s so = Inr ssd
            \<and> strcasecmp (c_str (sds_buf ssd)) ''samples'' = 0
            \<and> getLongLongFromObject s (Some n) (Some 0) = Inr (C_OK, Some v)
            \<and> 0 \<le> sint v"
  have ne: "C_OK \<noteq> C_ERR" by (simp add: C_OK_def C_ERR_def)
  from h have "usage_options s c opts OBJ_COMPUTE_SIZE_DEF_SAMPLES
                 = Inr (c, Some (if v = 0 then LLONG_MAX else v))"
    using ne by (simp add: getLongLongFromObjectOrReply_def)
  from memoryCommand_usage [OF args sub usage keysd stored this]
  show "memoryCommand env others s c =
              (case objectComputeSize env s ov (if v = 0 then LLONG_MAX else v) of
                 Inl e \<Rightarrow> Inl e
               | Inr sz \<Rightarrow>
                   Inr (addReply c
                          (ReplyLongLong (sz + sdsAllocSize env keysd + sizeof_dictEntry env))))" .
qed

theorem memory_usage_reply_witness:
  "memoryCommand demo_env (\<lambda>s c. Inr c) demo_command (demo_client [])
     = Inr (addReply (demo_client []) (ReplyLongLong 38))
   \<and> memoryCommand demo_env (\<lambda>s c. Inr c) demo_command (demo_client [10003, 10005])
     = Inr (addReply (demo_client [10003, 10005]) (ReplyLongLong 36))
   \<and> memoryCommand demo_env (\<lambda>s c. Inr c) demo_command (demo_client [10003, 10004])
     = Inr (addReply (demo_client [10003, 10004]) (ReplyLongLong (LLONG_MAX + 33)))"
proof -
  have args: "\<And>opts. argv (demo_client opts) = 10000 # 10001 # 10002 # opts"
    by (simp add: demo_client_def)
  have stored: "\<And>opts. db_dict (demo_client opts) (sds_buf (demo_sds ''mykey'')) = Some 10006"
    by (simp add: demo_client_def demo_sds_def)
  note inst = memory_usage_reply [OF args demo_arg_sds(1) demo_strcasecmp(1) demo_arg_sds(2)
      stored, of _ demo_env "\<lambda>s c. Inr c"]
  have key: "sdsAllocSize demo_env (demo_sds ''mykey'') + sizeof_dictEntry demo_env = 33"
    by (simp add: demo_env_def demo_sds_def)
  have one: "memoryCommand demo_env (\<lambda>s c. Inr c) demo_command (demo_client [])
     = Inr (addReply (demo_client []) (ReplyLongLong 38))"
    using inst [of "[]"] key by (simp add: demo_size add.assoc)
  have two: "memoryCommand demo_env (\<lambda>s c. Inr c) demo_command (demo_client [10003, 10005])
     = Inr (addReply (demo_client [10003, 10005]) (ReplyLongLong 36))"
    using inst [of "[10003, 10005]"] key demo_arg_sds(3) demo_strcasecmp(2) demo_samples(2)
    by (simp add: demo_size add.assoc)
  have three: "memoryCommand demo_env (\<lambda>s c. Inr c) demo_command (demo_client [10003, 10004])
     = Inr (addReply (demo_client [10003, 10004]) (ReplyLongLong (LLONG_MAX + 33)))"
    using inst [of "[10003, 10004]"] key demo_arg_sds(3) demo_strcasecmp(2) demo_samples(1)
    by (simp add: demo_size add.assoc)
  from one two three show ?thesis by simp
qed

end
